theory Spec2Isabelle
  imports Complex_Main "HOL-Library.Word" "HOL-Library.Multiset"
begin

section \<open>The terrain node of the tire/terrain co-simulation\<close>

text \<open>
  A shallow embedding of \<^verbatim>\<open>TerrainNode.cpp\<close>
  (\<^verbatim>\<open>projects/cosimulation/test_HMMWV_cosimulation\<close>).

  Conventions of the embedding.
  \<^item> \<^verbatim>\<open>double\<close> and \<^verbatim>\<open>float\<close> are the real numbers: every statement below is
    about exact arithmetic, rounding is not modelled.
  \<^item> \<^verbatim>\<open>unsigned int\<close> and \<^verbatim>\<open>int\<close> are 32-bit words. Arithmetic wraps; an
    \<^verbatim>\<open>int\<close> is read with \<open>sint\<close>, an \<^verbatim>\<open>unsigned int\<close> with \<open>unat\<close>, and
    a conversion between the two keeps the bits.
  \<^item> A \<^verbatim>\<open>std::shared_ptr<ChBody>\<close> is the position of the body in the body list of
    the system, which is the store of all bodies: writing through the pointer
    updates the list at that position.
  \<^item> The physics engine, the particle sampler and the build configuration are
    not part of the file; what the code calls of them is a field of the record
    \<open>environment\<close>, and a theorem holds for every environment unless it says otherwise.
  \<^item> Console output, timers, rendering and the settings file are left out.
  \<^item> An access outside an array, which the source does not check, is the outcome
    \<open>OutOfBounds\<close>.
\<close>

subsection \<open>Vectors, quaternions, materials\<close>

datatype ChVector = ChVector (vec_x: real) (vec_y: real) (vec_z: real)

type_synonym real3 = ChVector

instantiation ChVector :: ab_group_add
begin

definition zero_ChVector :: ChVector where
  "zero_ChVector = ChVector 0 0 0"

definition plus_ChVector :: "ChVector \<Rightarrow> ChVector \<Rightarrow> ChVector" where
  "plus_ChVector a b = ChVector (vec_x a + vec_x b) (vec_y a + vec_y b) (vec_z a + vec_z b)"

definition uminus_ChVector :: "ChVector \<Rightarrow> ChVector" where
  "uminus_ChVector a = ChVector (- vec_x a) (- vec_y a) (- vec_z a)"

definition minus_ChVector :: "ChVector \<Rightarrow> ChVector \<Rightarrow> ChVector" where
  "minus_ChVector a b = ChVector (vec_x a - vec_x b) (vec_y a - vec_y b) (vec_z a - vec_z b)"

instance
  by standard
    (simp_all add: zero_ChVector_def plus_ChVector_def uminus_ChVector_def minus_ChVector_def)

end

text \<open>\<^verbatim>\<open>v / c\<close> and \<^verbatim>\<open>c * v\<close> for a scalar \<open>c\<close>.\<close>

definition vec_div :: "ChVector \<Rightarrow> real \<Rightarrow> ChVector" where
  "vec_div v c = ChVector (vec_x v / c) (vec_y v / c) (vec_z v / c)"

definition vec_scale :: "real \<Rightarrow> ChVector \<Rightarrow> ChVector" where
  "vec_scale c v = ChVector (c * vec_x v) (c * vec_y v) (c * vec_z v)"

datatype ChQuaternion = ChQuaternion (e0: real) (e1: real) (e2: real) (e3: real)

definition QUNIT :: ChQuaternion where
  "QUNIT = ChQuaternion 1 0 0 0"

text \<open>The product of two quaternions and the scaling of one, as the engine's
  \<^verbatim>\<open>SetWvel_loc\<close> uses them.\<close>

definition quat_mult :: "ChQuaternion \<Rightarrow> ChQuaternion \<Rightarrow> ChQuaternion" where
  "quat_mult a b = ChQuaternion
     (e0 a * e0 b - e1 a * e1 b - e2 a * e2 b - e3 a * e3 b)
     (e0 a * e1 b + e1 a * e0 b - e3 a * e2 b + e2 a * e3 b)
     (e0 a * e2 b + e2 a * e0 b + e3 a * e1 b - e1 a * e3 b)
     (e0 a * e3 b + e3 a * e0 b - e2 a * e1 b + e1 a * e2 b)"

definition quat_scale :: "real \<Rightarrow> ChQuaternion \<Rightarrow> ChQuaternion" where
  "quat_scale c q = ChQuaternion (c * e0 q) (c * e1 q) (c * e2 q) (c * e3 q)"

datatype Type = RIGID | GRANULAR

datatype ContactMethod = NSC | SMC

text \<open>A contact material: its formulation and the parameters the code has set on it, in
  the order of the setters; every other parameter keeps the engine's default.\<close>

datatype ChMaterialSurface =
    ChMaterialSurfaceSMC "real list"
  | ChMaterialSurfaceNSC "real list"

subsection \<open>The engine's bodies and system\<close>

datatype shape =
    Box ChVector ChVector
  | Sphere real ChVector
  | Triangle ChVector ChVector ChVector

record ChBody =
  Identifier :: "32 word"
  mass :: real
  inertiaXX :: ChVector
  body_fixed :: bool
  collide :: bool
  material :: "ChMaterialSurface option"
  pos :: ChVector
  rot :: ChQuaternion
  pos_dt :: ChVector
  rot_dt :: ChQuaternion
  shapes :: "shape list"
  family :: nat
  no_collision_with :: "nat list"

text \<open>\<^verbatim>\<open>m_system->NewBody()\<close>: a body that no setter has touched.\<close>

definition NewBody :: ChBody where
  "NewBody = \<lparr> Identifier = 0, mass = 1, inertiaXX = ChVector 1 1 1, body_fixed = False,
     collide = False, material = None, pos = ChVector 0 0 0, rot = QUNIT,
     pos_dt = ChVector 0 0 0, rot_dt = ChQuaternion 0 0 0 0, shapes = [],
     family = 0, no_collision_with = [] \<rparr>"

text \<open>\<^verbatim>\<open>SetWvel_loc\<close> stores the angular velocity \<open>w\<close>, given in the body frame, as
  the quaternion rate \<open>1/2 * rot * (0, w)\<close>.\<close>

definition SetWvel_loc :: "ChVector \<Rightarrow> ChBody \<Rightarrow> ChBody" where
  "SetWvel_loc w b =
     b\<lparr>rot_dt := quat_scale (1/2)
          (quat_mult (rot b) (ChQuaternion 0 (vec_x w) (vec_y w) (vec_z w)))\<rparr>"

text \<open>The system: the body list, the welds (pairs of body addresses), the time, and of
  the data manager the two counters and the shape arrays that the code reads and
  writes by position.\<close>

record ChSystemParallel =
  bodylist :: "ChBody list"
  linklist :: "(nat \<times> nat) list"
  ChTime :: real
  num_rigid_bodies :: nat
  num_rigid_shapes :: nat
  ObA_rigid :: "real3 list"
  box_like_rigid :: "real3 list"
  triangle_rigid :: "real3 list"

definition new_system :: ChSystemParallel where
  "new_system = \<lparr> bodylist = [], linklist = [], ChTime = 0, num_rigid_bodies = 0,
     num_rigid_shapes = 0, ObA_rigid = [], box_like_rigid = [], triangle_rigid = [] \<rparr>"

text \<open>One contact shape enters the arrays of the data manager: every shape has a
  position slot, a box one slot of half-dimensions, a triangle three slots of
  vertices.\<close>

fun add_shape :: "ChSystemParallel \<Rightarrow> shape \<Rightarrow> ChSystemParallel" where
  "add_shape sys (Box hdims p) =
     sys\<lparr>num_rigid_shapes := num_rigid_shapes sys + 1,
         ObA_rigid := ObA_rigid sys @ [p],
         box_like_rigid := box_like_rigid sys @ [hdims]\<rparr>"
| "add_shape sys (Sphere r p) =
     sys\<lparr>num_rigid_shapes := num_rigid_shapes sys + 1,
         ObA_rigid := ObA_rigid sys @ [p]\<rparr>"
| "add_shape sys (Triangle A B C) =
     sys\<lparr>num_rigid_shapes := num_rigid_shapes sys + 1,
         ObA_rigid := ObA_rigid sys @ [ChVector 0 0 0],
         triangle_rigid := triangle_rigid sys @ [A, B, C]\<rparr>"

text \<open>\<^verbatim>\<open>AddBody\<close> together with \<^verbatim>\<open>BuildModel\<close>: the body is appended to the body
  list, and the shapes of a colliding body enter the shape arrays. The source builds
  the collision model of a body before it creates the next body, so the order of the
  shapes in the arrays is the order of the bodies.\<close>

definition AddBody :: "ChSystemParallel \<Rightarrow> ChBody \<Rightarrow> ChSystemParallel" where
  "AddBody sys b =
     (let sys' = sys\<lparr>bodylist := bodylist sys @ [b],
                      num_rigid_bodies := num_rigid_bodies sys + 1\<rparr>
      in if collide b then foldl add_shape sys' (shapes b) else sys')"

text \<open>A write through a body pointer.\<close>

definition upd_body :: "nat \<Rightarrow> (ChBody \<Rightarrow> ChBody) \<Rightarrow> ChSystemParallel \<Rightarrow> ChSystemParallel" where
  "upd_body a f sys = sys\<lparr>bodylist := (bodylist sys)[a := f (bodylist sys ! a)]\<rparr>"

subsection \<open>Checkpoint files\<close>

text \<open>A checkpoint file as its reader sees it: the time of the first line, the count
  of the second, and one record of fifteen numbers for each further line.\<close>

record checkpoint_line =
  cl_identifier :: "32 word"
  cl_pos :: ChVector
  cl_rot :: ChQuaternion
  cl_pos_dt :: ChVector
  cl_rot_dt :: ChQuaternion

record checkpoint =
  cp_time :: real
  cp_num_particles :: "32 word"
  cp_lines :: "checkpoint_line list"

subsection \<open>What the code calls and does not define\<close>

record environment =
  POISSON_DISK :: "real \<Rightarrow> ChVector \<Rightarrow> ChVector \<Rightarrow> ChBody list"
    \<comment> \<open>the bodies \<^verbatim>\<open>createObjectsBox\<close> makes for one layer: distance, centre, half-dimensions\<close>
  DoStepDynamics :: "real \<Rightarrow> ChSystemParallel \<Rightarrow> ChSystemParallel"
  GetBodyContactForce :: "ChSystemParallel \<Rightarrow> nat \<Rightarrow> real3"
    \<comment> \<open>the force on the body at an address, once \<^verbatim>\<open>CalculateContactForces\<close> has run\<close>
  IsZero :: "real3 \<Rightarrow> bool"
  unordered_order :: "(32 word \<times> ChVector) list \<Rightarrow> (32 word \<times> ChVector) list"
    \<comment> \<open>the order in which a \<^verbatim>\<open>std::unordered_map\<close> with these entries is traversed\<close>
  failed_read :: checkpoint_line
    \<comment> \<open>what the extractions leave in the variables when the file has no line left\<close>
  NDEBUG :: bool
    \<comment> \<open>whether \<^verbatim>\<open>assert\<close> is compiled out\<close>

datatype error =
    MPI_Abort string
  | AssertionFailed
  | OutOfBounds
  | MPI_Error
  | FloatToIntOverflow

subsection \<open>The data of the terrain node\<close>

record VertexState =
  vs_pos :: ChVector
  vs_vel :: ChVector

record Triangle_idx =
  v1 :: "32 word"
  v2 :: "32 word"
  v3 :: "32 word"

record ProxyBody =
  m_body :: nat
  m_index :: "32 word"

record TireData =
  m_proxies :: "ProxyBody list"
  m_vertex_states :: "VertexState list"
  m_triangles :: "Triangle_idx list"
  m_material_tire :: "ChMaterialSurface option"
  m_num_vert :: "32 word"
  m_num_tri :: "32 word"
  m_start_vert :: "32 word"
  m_start_tri :: "32 word"

definition new_TireData :: TireData where
  "new_TireData = \<lparr> m_proxies = [], m_vertex_states = [], m_triangles = [],
     m_material_tire = None, m_num_vert = 0, m_num_tri = 0, m_start_vert = 0,
     m_start_tri = 0 \<rparr>"

record TerrainNode =
  m_type :: Type
  m_method :: ContactMethod
  m_num_tires :: int
  m_use_checkpoint :: bool
  m_constructed :: bool
  m_num_particles :: "32 word"
  m_particles_start_index :: nat
  m_proxy_start_index :: nat
  m_init_height :: real
  m_hlenX :: real
  m_hdimX :: real
  m_hdimY :: real
  m_hdimZ :: real
  m_hthick :: real
  m_radius_g :: real
  m_rho_g :: real
  m_num_layers :: int
  m_time_settling :: real
  m_fixed_proxies :: bool
  m_mass_pN :: real
  m_radius_pN :: real
  m_mass_pF :: real
  m_material_terrain :: ChMaterialSurface
  m_Id_g :: "32 word"
  m_platform :: "nat option"
  m_tire_data :: "TireData list"
  m_system :: ChSystemParallel
  m_step_size :: real

text \<open>The constructor. \<open>m_step_size\<close> belongs to the base class and is passed in;
  \<open>m_Id_g\<close> and \<open>m_platform\<close> are first assigned by \<open>Construct\<close>.\<close>

definition TerrainNode_new ::
  "Type \<Rightarrow> ContactMethod \<Rightarrow> int \<Rightarrow> bool \<Rightarrow> real \<Rightarrow> TerrainNode" where
  "TerrainNode_new type method num_tires use_checkpoint step_size =
     \<lparr> m_type = type, m_method = method, m_num_tires = num_tires,
       m_use_checkpoint = use_checkpoint, m_constructed = False,
       m_num_particles = 0, m_particles_start_index = 0, m_proxy_start_index = 0,
       m_init_height = 0,
       m_hlenX = 0, m_hdimX = 1, m_hdimY = 1/4, m_hdimZ = 1/2, m_hthick = 1/10,
       m_radius_g = 1/100, m_rho_g = 2000, m_num_layers = 5, m_time_settling = 4/10,
       m_fixed_proxies = False, m_mass_pN = 1, m_radius_pN = 1/100, m_mass_pF = 1,
       m_material_terrain =
         (case method of SMC \<Rightarrow> ChMaterialSurfaceSMC [] | NSC \<Rightarrow> ChMaterialSurfaceNSC []),
       m_Id_g = 0, m_platform = None,
       m_tire_data = replicate (nat num_tires) new_TireData,
       m_system = new_system, m_step_size = step_size \<rparr>"

subsection \<open>Construct\<close>

text \<open>The particle generator: one call of \<^verbatim>\<open>createObjectsBox\<close> for each layer, the
  centre raised by \<open>2 r\<close> after each. The bodies of a layer are the sampler's; the
  generator numbers them consecutively from the Identifier it was given and adds
  them to the system. The result is the system and the number of bodies made.\<close>

fun create_layers ::
  "environment \<Rightarrow> real \<Rightarrow> ChVector \<Rightarrow> nat \<Rightarrow> ChVector \<Rightarrow> 32 word
     \<Rightarrow> ChSystemParallel \<times> nat \<Rightarrow> ChSystemParallel \<times> nat" where
  "create_layers env r hdims 0 center id0 (sys, n) = (sys, n)"
| "create_layers env r hdims (Suc il) center id0 (sys, n) =
     (let made = POISSON_DISK env (2 * r) center hdims;
          numbered = map (\<lambda>(k, b). b\<lparr>Identifier := id0 + of_nat (n + k)\<rparr>)
                       (zip [0..<length made] made)
      in create_layers env r hdims il
           (ChVector (vec_x center) (vec_y center) (vec_z center + 2 * r)) id0
           (foldl AddBody sys numbered, n + length made))"

definition Construct :: "environment \<Rightarrow> TerrainNode \<Rightarrow> TerrainNode" where
  "Construct env s =
     (if m_constructed s then s
      else
        let hlenX = m_hlenX s + m_hthick s;
            a_platform = length (bodylist (m_system s));
            platform = NewBody\<lparr>Identifier := - 2, mass := 1000, body_fixed := True,
              collide := True, material := Some (m_material_terrain s),
              shapes := [Box (ChVector hlenX (m_hdimY s) (m_hdimZ s + m_hthick s))
                             (ChVector (- hlenX - m_hdimX s) 0 (m_hdimZ s - m_hthick s))]\<rparr>;
            sys1 = AddBody (m_system s) platform;
            a_container = length (bodylist sys1);
            container = NewBody\<lparr>Identifier := - 1, mass := 1000, body_fixed := True,
              collide := True, material := Some (m_material_terrain s),
              shapes :=
                [Box (ChVector (m_hdimX s) (m_hdimY s) (m_hthick s))
                     (ChVector 0 0 (- m_hthick s)),
                 Box (ChVector (m_hthick s) (m_hdimY s) (m_hdimZ s + m_hthick s))
                     (ChVector (m_hdimX s + m_hthick s) 0 (m_hdimZ s - m_hthick s)),
                 Box (ChVector (m_hdimX s) (m_hthick s) (m_hdimZ s + m_hthick s))
                     (ChVector 0 (m_hdimY s + m_hthick s) (m_hdimZ s - m_hthick s)),
                 Box (ChVector (m_hdimX s) (m_hthick s) (m_hdimZ s + m_hthick s))
                     (ChVector 0 (- m_hdimY s - m_hthick s) (m_hdimZ s - m_hthick s))]\<rparr>;
            sys2 = AddBody sys1 container;
            sys3 =
              (if m_fixed_proxies s then
                 let a_ground = length (bodylist sys2);
                     ground = NewBody\<lparr>Identifier := - 2, body_fixed := True, collide := False\<rparr>;
                     sysg = AddBody sys2 ground;
                     sysp = upd_body a_platform (\<lambda>b. b\<lparr>body_fixed := False\<rparr>) sysg;
                     sysw = sysp\<lparr>linklist := linklist sysp @ [(a_ground, a_platform)]\<rparr>
                 in if m_type s = RIGID then
                      let sysc = upd_body a_container (\<lambda>b. b\<lparr>body_fixed := False\<rparr>) sysw
                      in sysc\<lparr>linklist := linklist sysc @ [(a_ground, a_container)]\<rparr>
                    else sysw
               else sys2);
            Id_g = 100000;
            particles_start_index = num_rigid_bodies sys3;
            (sys4, num_particles) =
              (if m_type s = GRANULAR then
                 let r = 101 / 100 * m_radius_g s;
                     (sysl, n) = create_layers env r
                        (ChVector (m_hdimX s - r) (m_hdimY s - r) 0)
                        (nat (m_num_layers s)) (ChVector 0 0 (2 * r)) Id_g (sys3, 0)
                 in (sysl, of_nat n)
               else (sys3, m_num_particles s))
        in s\<lparr>m_platform := Some a_platform, m_system := sys4, m_Id_g := Id_g,
             m_particles_start_index := particles_start_index,
             m_num_particles := num_particles,
             m_proxy_start_index := num_rigid_shapes sys4,
             m_constructed := True\<rparr>)"

subsection \<open>Checkpoints and Settle\<close>



text \<open>The loop of \<open>Settle\<close> that reads the state of the bodies: one line for each body
  address in turn. The outcome \<open>Inl\<close> carries the system as it is when the run stops.\<close>

fun read_checkpoint_state ::
  "environment \<Rightarrow> checkpoint_line list \<Rightarrow> nat list \<Rightarrow> ChSystemParallel
     \<Rightarrow> error \<times> ChSystemParallel + ChSystemParallel" where
  "read_checkpoint_state env lines [] sys = Inr sys"
| "read_checkpoint_state env lines (ib # ibs) sys =
     (let l = (case lines of [] \<Rightarrow> failed_read env | l # _ \<Rightarrow> l)
      in if \<not> NDEBUG env \<and> Identifier (bodylist sys ! ib) \<noteq> cl_identifier l
         then Inl (AssertionFailed, sys)
         else read_checkpoint_state env (tl lines) ibs
                (upd_body ib (\<lambda>b. b\<lparr>pos := cl_pos l, rot := cl_rot l,
                                      pos_dt := cl_pos_dt l, rot_dt := cl_rot_dt l\<rparr>) sys))"

text \<open>The height of the granular material: the largest \<open>z\<close> of a body with a positive
  identifier, or 0, plus the particle radius.\<close>

definition find_height :: "TerrainNode \<Rightarrow> real" where
  "find_height s =
     foldl (\<lambda>h b. if 0 < sint (Identifier b) \<and> h < vec_z (pos b) then vec_z (pos b) else h)
       0 (bodylist (m_system s)) + m_radius_g s"

text \<open>\<open>Settle\<close>, given the checkpoint file it would open. The outcome \<open>Inl\<close> carries the
  node as it is when the run stops.\<close>

definition Settle ::
  "environment \<Rightarrow> checkpoint \<Rightarrow> TerrainNode \<Rightarrow> error \<times> TerrainNode + TerrainNode" where
  "Settle env ifile s0 =
     (if \<not> NDEBUG env \<and> m_type s0 \<noteq> GRANULAR then Inl (AssertionFailed, s0)
      else
        let s = Construct env s0 in
        if m_use_checkpoint s then
          if cp_num_particles ifile \<noteq> m_num_particles s
          then Inl (MPI_Abort ''ERROR: inconsistent number of particles in checkpoint file!'', s)
          else
            (case read_checkpoint_state env (cp_lines ifile)
                    [m_particles_start_index s ..< length (bodylist (m_system s))] (m_system s) of
               Inl (e, sys) \<Rightarrow> Inl (e, s\<lparr>m_system := sys\<rparr>)
             | Inr sys \<Rightarrow>
                 let s' = s\<lparr>m_system := sys\<rparr> in Inr (s'\<lparr>m_init_height := find_height s'\<rparr>))
        else
          let sim_steps = \<lceil>m_time_settling s / m_step_size s\<rceil> in
          if m_step_size s = 0 \<or> sim_steps < - (2 ^ 31) \<or> 2 ^ 31 \<le> sim_steps
          then Inl (FloatToIntOverflow, s)
          else
            let s' = s\<lparr>m_system :=
                       (DoStepDynamics env (m_step_size s) ^^ nat sim_steps) (m_system s)\<rparr>
            in Inr (s'\<lparr>m_init_height := find_height s'\<rparr>))"

subsection \<open>Failing steps\<close>

definition bindE :: "error + 'a \<Rightarrow> ('a \<Rightarrow> error + 'b) \<Rightarrow> error + 'b" where
  "bindE m f = (case m of Inl e \<Rightarrow> Inl e | Inr a \<Rightarrow> f a)"

text \<open>A loop over a list of indices whose body can fail, and the same loop collecting
  one result for each index.\<close>

fun foldE :: "('i \<Rightarrow> 'a \<Rightarrow> error + 'a) \<Rightarrow> 'i list \<Rightarrow> 'a \<Rightarrow> error + 'a" where
  "foldE f [] a = Inr a"
| "foldE f (i # is) a = bindE (f i a) (foldE f is)"

fun mapE :: "('i \<Rightarrow> error + 'b) \<Rightarrow> 'i list \<Rightarrow> error + 'b list" where
  "mapE f [] = Inr []"
| "mapE f (i # is) = bindE (f i) (\<lambda>b. bindE (mapE f is) (\<lambda>bs. Inr (b # bs)))"

text \<open>\<^verbatim>\<open>xs[i]\<close> for a loop counter, for an \<^verbatim>\<open>unsigned int\<close> and for an \<^verbatim>\<open>int\<close>: a
  negative \<^verbatim>\<open>int\<close> is outside every array.\<close>

definition at_nat :: "'a list \<Rightarrow> nat \<Rightarrow> error + 'a" where
  "at_nat xs i = (if i < length xs then Inr (xs ! i) else Inl OutOfBounds)"

definition at_uint :: "'a list \<Rightarrow> 32 word \<Rightarrow> error + 'a" where
  "at_uint xs i = at_nat xs (unat i)"

definition at_int :: "'a list \<Rightarrow> 32 word \<Rightarrow> error + 'a" where
  "at_int xs i = (if sint i < 0 then Inl OutOfBounds else at_nat xs (nat (sint i)))"

text \<open>\<^verbatim>\<open>std::vector::resize\<close>.\<close>

definition resize :: "nat \<Rightarrow> 'a \<Rightarrow> 'a list \<Rightarrow> 'a list" where
  "resize n d xs = take n xs @ replicate (n - length xs) d"

subsection \<open>Initialize and the creation of the proxies\<close>

text \<open>Both functions run for a tire \<open>which\<close> that \<open>Initialize\<close> has found inside
  \<open>m_tire_data\<close>: one round of the loop, and the loop. The proxy of an element holds
  the address of its body and the loop counter.\<close>

definition CreateNodeProxies_step :: "nat \<Rightarrow> ChVector \<Rightarrow> TerrainNode \<Rightarrow> nat \<Rightarrow> TerrainNode" where
  "CreateNodeProxies_step which inertia_pN s iv =
     (let td = m_tire_data s ! which;
          a = length (bodylist (m_system s));
          body = NewBody\<lparr>Identifier := m_start_vert td + of_nat iv,
            mass := m_mass_pN s, inertiaXX := inertia_pN,
            body_fixed := m_fixed_proxies s, collide := True,
            material := m_material_tire td,
            shapes := [Sphere (m_radius_pN s) (ChVector 0 0 0)],
            family := 1, no_collision_with := [1]\<rparr>
      in s\<lparr>m_system := AddBody (m_system s) body,
           m_tire_data := (m_tire_data s)
             [which := td\<lparr>m_proxies := m_proxies td @ [\<lparr>m_body = a, m_index = of_nat iv\<rparr>]\<rparr>]\<rparr>)"

definition CreateNodeProxies :: "nat \<Rightarrow> TerrainNode \<Rightarrow> TerrainNode" where
  "CreateNodeProxies which s =
     foldl (CreateNodeProxies_step which
              (vec_scale (4 / 10 * m_mass_pN s * m_radius_pN s * m_radius_pN s) (ChVector 1 1 1)))
       s [0 ..< unat (m_num_vert (m_tire_data s ! which))]"

definition CreateFaceProxies_step :: "nat \<Rightarrow> ChVector \<Rightarrow> TerrainNode \<Rightarrow> nat \<Rightarrow> TerrainNode" where
  "CreateFaceProxies_step which inertia_pF s it =
     (let td = m_tire_data s ! which;
          a = length (bodylist (m_system s));
          len = 1 / 10;
          body = NewBody\<lparr>Identifier := m_start_tri td + of_nat it,
            mass := m_mass_pF s, inertiaXX := inertia_pF,
            body_fixed := m_fixed_proxies s, collide := True,
            material := m_material_tire td,
            shapes := [Triangle (ChVector len 0 0) (ChVector 0 len 0) (ChVector 0 0 len)],
            family := 1, no_collision_with := [1]\<rparr>
      in s\<lparr>m_system := AddBody (m_system s) body,
           m_tire_data := (m_tire_data s)
             [which := td\<lparr>m_proxies := m_proxies td @ [\<lparr>m_body = a, m_index = of_nat it\<rparr>]\<rparr>]\<rparr>)"

definition CreateFaceProxies :: "nat \<Rightarrow> TerrainNode \<Rightarrow> TerrainNode" where
  "CreateFaceProxies which s =
     foldl (CreateFaceProxies_step which
              (vec_scale (1 / 1000 * m_mass_pF s) (ChVector (1/10) (1/10) (1/10))))
       s [0 ..< unat (m_num_tri (m_tire_data s ! which))]"

text \<open>The \<^verbatim>\<open>switch\<close> of \<open>Initialize\<close> on the type of the terrain.\<close>

definition create_proxies :: "nat \<Rightarrow> TerrainNode \<Rightarrow> TerrainNode" where
  "create_proxies which s =
     (case m_type s of
        RIGID \<Rightarrow> CreateNodeProxies which s
      | GRANULAR \<Rightarrow> CreateFaceProxies which s)"

text \<open>The body of the loop over the tires. \<open>surf_props which\<close> and \<open>mat_props which\<close>
  are the two messages of tire \<open>which\<close>; the loop carries the node and the two running
  offsets \<open>start_vert_index\<close> and \<open>start_tri_index\<close>.\<close>

definition Initialize_tire ::
  "(nat \<Rightarrow> 32 word \<times> 32 word) \<Rightarrow> (nat \<Rightarrow> nat \<Rightarrow> real) \<Rightarrow> nat
     \<Rightarrow> TerrainNode \<times> 32 word \<times> 32 word \<Rightarrow> error + TerrainNode \<times> 32 word \<times> 32 word" where
  "Initialize_tire surf_props mat_props which st =
     (case st of (s, start_vert_index, start_tri_index) \<Rightarrow>
        if length (m_tire_data s) \<le> which then Inl OutOfBounds
        else
          let td = m_tire_data s ! which;
              mat_tire = (case m_method s of
                  SMC \<Rightarrow> ChMaterialSurfaceSMC (map (mat_props which) [0 ..< 8])
                | NSC \<Rightarrow> ChMaterialSurfaceNSC (map (mat_props which) [0 ..< 2]));
              td' = td\<lparr>m_num_vert := fst (surf_props which),
                m_num_tri := snd (surf_props which),
                m_vertex_states := resize (unat (fst (surf_props which)))
                   \<lparr>vs_pos = ChVector 0 0 0, vs_vel = ChVector 0 0 0\<rparr> (m_vertex_states td),
                m_triangles := resize (unat (snd (surf_props which)))
                   \<lparr>v1 = 0, v2 = 0, v3 = 0\<rparr> (m_triangles td),
                m_start_vert := start_vert_index,
                m_start_tri := start_tri_index,
                m_material_tire := Some mat_tire\<rparr>;
              s' = s\<lparr>m_tire_data := (m_tire_data s)[which := td']\<rparr>
          in Inr (create_proxies which s',
                  start_vert_index + fst (surf_props which),
                  start_tri_index + snd (surf_props which)))"

text \<open>\<open>Initialize\<close>: the result is the node and the two numbers sent to the vehicle
  node.\<close>

definition Initialize ::
  "environment \<Rightarrow> (nat \<Rightarrow> 32 word \<times> 32 word) \<Rightarrow> (nat \<Rightarrow> nat \<Rightarrow> real) \<Rightarrow> TerrainNode
     \<Rightarrow> error + TerrainNode \<times> real \<times> real" where
  "Initialize env surf_props mat_props s0 =
     (let s = Construct env s0;
          sys = (m_system s)\<lparr>ChTime := 0\<rparr>;
          init_dim = (m_init_height s, m_hdimX s + 2 * m_hlenX s)
      in if ObA_rigid sys = [] \<or> box_like_rigid sys = [] then Inl OutOfBounds
         else
           let box_pos = ObA_rigid sys ! 0;
               box_hdims = box_like_rigid sys ! 0;
               zmin = vec_z box_pos - vec_z box_hdims;
               zmax = m_init_height s;
               height = zmax - zmin;
               sys' = sys\<lparr>
                 ObA_rigid := (ObA_rigid sys)
                   [0 := ChVector (vec_x box_pos) (vec_y box_pos) (zmin + height / 2)],
                 box_like_rigid := (box_like_rigid sys)
                   [0 := ChVector (vec_x box_hdims) (vec_y box_hdims) (height / 2)]\<rparr>
           in bindE (foldE (Initialize_tire surf_props mat_props)
                       [0 ..< nat (m_num_tires s)] (s\<lparr>m_system := sys'\<rparr>, 0, 0))
                (\<lambda>(s', start_vert_index, start_tri_index). Inr (s', init_dim)))"

subsection \<open>Synchronize\<close>

text \<open>\<open>UpdateNodeProxies\<close> and \<open>UpdateFaceProxies\<close>, one round of the loop and the loop.\<close>

definition UpdateNodeProxies_step :: "nat \<Rightarrow> nat \<Rightarrow> TerrainNode \<Rightarrow> error + TerrainNode" where
  "UpdateNodeProxies_step which iv s =
     (let td = m_tire_data s ! which in
      bindE (at_nat (m_proxies td) iv) (\<lambda>p.
      bindE (at_nat (m_vertex_states td) iv) (\<lambda>vs.
      Inr (s\<lparr>m_system := upd_body (m_body p)
             (\<lambda>b. b\<lparr>pos := vs_pos vs, pos_dt := vs_vel vs, rot := ChQuaternion 1 0 0 0,
                     rot_dt := ChQuaternion 0 0 0 0\<rparr>) (m_system s)\<rparr>))))"

definition UpdateNodeProxies :: "nat \<Rightarrow> TerrainNode \<Rightarrow> error + TerrainNode" where
  "UpdateNodeProxies which s =
     foldE (UpdateNodeProxies_step which) [0 ..< unat (m_num_vert (m_tire_data s ! which))] s"

definition UpdateFaceProxies_step :: "nat \<Rightarrow> nat \<Rightarrow> TerrainNode \<Rightarrow> error + TerrainNode" where
  "UpdateFaceProxies_step which it s =
     (let td = m_tire_data s ! which in
      bindE (at_nat (m_triangles td) it) (\<lambda>tri.
      bindE (at_int (m_vertex_states td) (v1 tri)) (\<lambda>sA.
      bindE (at_int (m_vertex_states td) (v2 tri)) (\<lambda>sB.
      bindE (at_int (m_vertex_states td) (v3 tri)) (\<lambda>sC.
      bindE (at_nat (m_proxies td) it) (\<lambda>p.
        let pA = vs_pos sA; pB = vs_pos sB; pC = vs_pos sC;
            pos' = vec_div (pA + pB + pC) 3;
            vel = vec_div (vs_vel sA + vs_vel sB + vs_vel sC) 3;
            sys = upd_body (m_body p)
                   (\<lambda>b. SetWvel_loc (ChVector 0 0 0)
                          (b\<lparr>pos := pos', rot := ChQuaternion 1 0 0 0, pos_dt := vel\<rparr>))
                   (m_system s);
            offset = 3 * m_start_tri td + 3 * of_nat it;
            shape_data = triangle_rigid sys
        in if length shape_data \<le> unat (offset + 0) \<or> length shape_data \<le> unat (offset + 1)
              \<or> length shape_data \<le> unat (offset + 2)
           then Inl OutOfBounds
           else Inr (s\<lparr>m_system := sys\<lparr>triangle_rigid :=
                  shape_data[unat (offset + 0) := pA - pos', unat (offset + 1) := pB - pos',
                             unat (offset + 2) := pC - pos']\<rparr>\<rparr>)))))))"

definition UpdateFaceProxies :: "nat \<Rightarrow> TerrainNode \<Rightarrow> error + TerrainNode" where
  "UpdateFaceProxies which s =
     foldE (UpdateFaceProxies_step which) [0 ..< unat (m_num_tri (m_tire_data s ! which))] s"

text \<open>\<open>ForcesNodeProxies\<close>: the loop carries \<open>vert_forces\<close> and \<open>vert_indices\<close>.\<close>

definition ForcesNodeProxies_step ::
  "environment \<Rightarrow> nat \<Rightarrow> TerrainNode \<Rightarrow> nat \<Rightarrow> real list \<times> 32 word list
     \<Rightarrow> error + real list \<times> 32 word list" where
  "ForcesNodeProxies_step env which s iv acc =
     (case acc of (vert_forces, vert_indices) \<Rightarrow>
        bindE (at_nat (m_proxies (m_tire_data s ! which)) iv) (\<lambda>p.
          let force = GetBodyContactForce env (m_system s) (m_body p)
          in if \<not> IsZero env force
             then Inr (vert_forces @ [vec_x force, vec_y force, vec_z force],
                       vert_indices @ [m_index p])
             else Inr (vert_forces, vert_indices)))"

definition ForcesNodeProxies ::
  "environment \<Rightarrow> nat \<Rightarrow> TerrainNode \<Rightarrow> error + real list \<times> 32 word list" where
  "ForcesNodeProxies env which s =
     foldE (ForcesNodeProxies_step env which s)
       [0 ..< unat (m_num_vert (m_tire_data s ! which))] ([], [])"

text \<open>The \<^verbatim>\<open>std::unordered_map\<close> of \<open>ForcesFaceProxies\<close> is the list of its entries, with
  one entry for a key. \<open>map_accumulate\<close> is the \<^verbatim>\<open>find\<close> followed by the increment
  of the entry found or the insertion of a new one.\<close>

definition map_accumulate ::
  "32 word \<Rightarrow> ChVector \<Rightarrow> (32 word \<times> ChVector) list \<Rightarrow> (32 word \<times> ChVector) list" where
  "map_accumulate k force my_map =
     (if k \<in> fst ` set my_map
      then map (\<lambda>(k', v). if k' = k then (k', v + force) else (k', v)) my_map
      else my_map @ [(k, force)])"

definition ForcesFaceProxies_step ::
  "environment \<Rightarrow> nat \<Rightarrow> TerrainNode \<Rightarrow> nat \<Rightarrow> (32 word \<times> ChVector) list
     \<Rightarrow> error + (32 word \<times> ChVector) list" where
  "ForcesFaceProxies_step env which s it my_map =
     (let td = m_tire_data s ! which in
      bindE (at_nat (m_triangles td) it) (\<lambda>tri.
      bindE (at_nat (m_proxies td) it) (\<lambda>p.
        let rforce = GetBodyContactForce env (m_system s) (m_body p)
        in if IsZero env rforce then Inr my_map
           else
             let force = ChVector (vec_x rforce / 3) (vec_y rforce / 3) (vec_z rforce / 3)
             in Inr (map_accumulate (v3 tri) force
                      (map_accumulate (v2 tri) force
                        (map_accumulate (v1 tri) force my_map))))))"

definition ForcesFaceProxies ::
  "environment \<Rightarrow> nat \<Rightarrow> TerrainNode \<Rightarrow> error + real list \<times> 32 word list" where
  "ForcesFaceProxies env which s =
     bindE (foldE (ForcesFaceProxies_step env which s)
              [0 ..< unat (m_num_tri (m_tire_data s ! which))] [])
       (\<lambda>my_map.
          Inr (concat (map (\<lambda>kv. [vec_x (snd kv), vec_y (snd kv), vec_z (snd kv)])
                        (unordered_order env my_map)),
               map fst (unordered_order env my_map)))"

text \<open>The first loop of \<open>Synchronize\<close> for one tire: \<open>vert_data\<close> and \<open>tri_data\<close> are the
  two messages of the tire for this step. A message that does not fill its buffer
  exactly, or a count that is not a non-negative \<^verbatim>\<open>int\<close>, is the outcome
  \<open>MPI_Error\<close>.\<close>

definition receive_vertex ::
  "real list \<Rightarrow> 32 word \<Rightarrow> nat \<Rightarrow> TireData \<Rightarrow> error + TireData" where
  "receive_vertex vert_data num_vert iv td =
     (let offset = 3 * of_nat iv in
      bindE (at_uint vert_data (offset + 0)) (\<lambda>p0.
      bindE (at_uint vert_data (offset + 1)) (\<lambda>p1.
      bindE (at_uint vert_data (offset + 2)) (\<lambda>p2.
      let offset = offset + 3 * num_vert in
      bindE (at_uint vert_data (offset + 0)) (\<lambda>d0.
      bindE (at_uint vert_data (offset + 1)) (\<lambda>d1.
      bindE (at_uint vert_data (offset + 2)) (\<lambda>d2.
      if length (m_vertex_states td) \<le> iv then Inl OutOfBounds
      else Inr (td\<lparr>m_vertex_states := (m_vertex_states td)
                  [iv := \<lparr>vs_pos = ChVector p0 p1 p2, vs_vel = ChVector d0 d1 d2\<rparr>]\<rparr>))))))))"

definition receive_triangle ::
  "32 word list \<Rightarrow> nat \<Rightarrow> TireData \<Rightarrow> error + TireData" where
  "receive_triangle tri_data it td =
     bindE (at_uint tri_data (3 * of_nat it + 0)) (\<lambda>a.
     bindE (at_uint tri_data (3 * of_nat it + 1)) (\<lambda>b.
     bindE (at_uint tri_data (3 * of_nat it + 2)) (\<lambda>c.
     if length (m_triangles td) \<le> it then Inl OutOfBounds
     else Inr (td\<lparr>m_triangles := (m_triangles td)[it := \<lparr>v1 = a, v2 = b, v3 = c\<rparr>]\<rparr>))))"

definition receive_tire ::
  "(nat \<Rightarrow> real list) \<Rightarrow> (nat \<Rightarrow> 32 word list) \<Rightarrow> nat \<Rightarrow> TerrainNode \<Rightarrow> error + TerrainNode" where
  "receive_tire vert_msg tri_msg which s =
     (if length (m_tire_data s) \<le> which then Inl OutOfBounds
      else
        let td = m_tire_data s ! which;
            num_vert = m_num_vert td;
            num_tri = m_num_tri td;
            vert_data = vert_msg which;
            tri_data = tri_msg which
        in if sint (2 * 3 * num_vert) < 0 \<or> sint (3 * num_tri) < 0
              \<or> length vert_data \<noteq> unat (2 * 3 * num_vert)
              \<or> length tri_data \<noteq> unat (3 * num_tri)
           then Inl MPI_Error
           else
             bindE (foldE (receive_vertex vert_data num_vert) [0 ..< unat num_vert] td) (\<lambda>td1.
             bindE (foldE (receive_triangle tri_data) [0 ..< unat num_tri] td1) (\<lambda>td2.
               let s' = s\<lparr>m_tire_data := (m_tire_data s)[which := td2]\<rparr>
               in case m_type s of
                    RIGID \<Rightarrow> UpdateNodeProxies which s'
                  | GRANULAR \<Rightarrow> UpdateFaceProxies which s')))"

text \<open>The second loop of \<open>Synchronize\<close> for one tire: the indices and the forces sent
  to the tire.\<close>

definition send_tire ::
  "environment \<Rightarrow> int \<Rightarrow> TerrainNode \<Rightarrow> nat \<Rightarrow> error + 32 word list \<times> real list" where
  "send_tire env step_number s which =
     (if 0 < step_number then
        if length (m_tire_data s) \<le> which then Inl OutOfBounds
        else bindE (case m_type s of
                      RIGID \<Rightarrow> ForcesNodeProxies env which s
                    | GRANULAR \<Rightarrow> ForcesFaceProxies env which s)
               (\<lambda>(vert_forces, vert_indices). Inr (vert_indices, vert_forces))
      else Inr ([], []))"

text \<open>\<open>Synchronize\<close>: the result is the node and, for each tire in turn, the pair of
  messages sent to it.\<close>

definition Synchronize ::
  "environment \<Rightarrow> int \<Rightarrow> (nat \<Rightarrow> real list) \<Rightarrow> (nat \<Rightarrow> 32 word list) \<Rightarrow> TerrainNode
     \<Rightarrow> error + TerrainNode \<times> (32 word list \<times> real list) list" where
  "Synchronize env step_number vert_msg tri_msg s =
     bindE (foldE (receive_tire vert_msg tri_msg) [0 ..< nat (m_num_tires s)] s) (\<lambda>s'.
     bindE (mapE (send_tire env step_number s') [0 ..< nat (m_num_tires s)]) (\<lambda>sent.
       Inr (s', sent)))"

subsection \<open>Advance\<close>

text \<open>The loop of \<open>Advance\<close> carries the time covered and the system; the model adds
  the list of the step sizes taken so far. A loop that does not end is \<open>None\<close>.\<close>

partial_function (option) Advance_loop ::
  "environment \<Rightarrow> real \<Rightarrow> real \<Rightarrow> real \<Rightarrow> ChSystemParallel \<Rightarrow> real list
     \<Rightarrow> (ChSystemParallel \<times> real list) option" where
  "Advance_loop env m_step_size' step_size t sys hs =
     (if t < step_size then
        Advance_loop env m_step_size' step_size (t + min m_step_size' (step_size - t))
          (DoStepDynamics env (min m_step_size' (step_size - t)) sys)
          (hs @ [min m_step_size' (step_size - t)])
      else Some (sys, hs))"

definition Advance :: "environment \<Rightarrow> real \<Rightarrow> TerrainNode \<Rightarrow> (TerrainNode \<times> real list) option" where
  "Advance env step_size s =
     map_option (\<lambda>(sys, hs). (s\<lparr>m_system := sys\<rparr>, hs))
       (Advance_loop env (m_step_size s) step_size 0 (m_system s) [])"

subsection \<open>The kinematic state of a body, and a small configuration\<close>


text \<open>An environment for the examples: the sampler makes one sphere for a layer, a step
  of the dynamics advances the time, the contact force on a body is its height, and
  the build has assertions.\<close>

definition example_env :: environment where
  "example_env =
     \<lparr> POISSON_DISK = (\<lambda>d c h. [NewBody\<lparr>collide := True, pos := c,
                                  shapes := [Sphere (d / 2) (ChVector 0 0 0)]\<rparr>]),
       DoStepDynamics = (\<lambda>h sys. sys\<lparr>ChTime := ChTime sys + h\<rparr>),
       GetBodyContactForce = (\<lambda>sys a. ChVector 0 0 (vec_z (pos (bodylist sys ! a)))),
       IsZero = (\<lambda>v. v = ChVector 0 0 0),
       unordered_order = rev,
       failed_read = \<lparr> cl_identifier = 0, cl_pos = ChVector 0 0 0,
         cl_rot = ChQuaternion 0 0 0 0, cl_pos_dt = ChVector 0 0 0,
         cl_rot_dt = ChQuaternion 0 0 0 0 \<rparr>,
       NDEBUG = False \<rparr>"

text \<open>A granular terrain with two layers that starts from a checkpoint.\<close>

definition example_granular :: TerrainNode where
  "example_granular = (TerrainNode_new GRANULAR SMC 1 True (2/5))\<lparr>m_num_layers := 2\<rparr>"

text \<open>A rigid terrain with two tires: the first has four vertices and two triangles,
  the second three vertices and one triangle. The messages of a step give the
  vertices their positions and velocities and the triangles their corners.\<close>

definition example_rigid :: TerrainNode where
  "example_rigid = TerrainNode_new RIGID SMC 2 False (2/5)"

definition example_surf_props :: "nat \<Rightarrow> 32 word \<times> 32 word" where
  "example_surf_props which = (if which = 0 then (4, 2) else (3, 1))"

definition example_mat_props :: "nat \<Rightarrow> nat \<Rightarrow> real" where
  "example_mat_props which k = 1/2"

definition example_vert_msg :: "nat \<Rightarrow> real list" where
  "example_vert_msg which =
     (if which = 0
      then [0, 0, 3,  1, 0, 3,  0, 1, 3,  1, 1, 0,
            0, 0, - 1,  0, 0, - 1,  0, 0, - 1,  0, 0, - 1]
      else [0, 0, 1,  1, 0, 0,  0, 1, 2,
            0, 0, 0,  0, 0, 0,  0, 0, 0])"

definition example_tri_msg :: "nat \<Rightarrow> 32 word list" where
  "example_tri_msg which = (if which = 0 then [0, 1, 2,  1, 2, 3] else [0, 1, 2])"

text \<open>The two example nodes after \<open>Initialize\<close>, and after a further \<open>Synchronize\<close> of
  step 1.\<close>

definition example_rigid_ready :: TerrainNode where
  "example_rigid_ready =
     (case Initialize example_env example_surf_props example_mat_props example_rigid of
        Inr (s, d) \<Rightarrow> s | Inl e \<Rightarrow> example_rigid)"

definition example_rigid_synced :: TerrainNode where
  "example_rigid_synced =
     (case Synchronize example_env 1 example_vert_msg example_tri_msg example_rigid_ready of
        Inr (s, sent) \<Rightarrow> s | Inl e \<Rightarrow> example_rigid_ready)"

definition example_granular_ready :: TerrainNode where
  "example_granular_ready =
     (case Initialize example_env example_surf_props example_mat_props example_granular of
        Inr (s, d) \<Rightarrow> s | Inl e \<Rightarrow> example_granular)"

definition example_granular_synced :: TerrainNode where
  "example_granular_synced =
     (case Synchronize example_env 1 example_vert_msg example_tri_msg example_granular_ready of
        Inr (s, sent) \<Rightarrow> s | Inl e \<Rightarrow> example_granular_ready)"

subsection \<open>What the handshake establishes for a tire\<close>

text \<open>Tire \<open>i\<close> is registered: its counts are those it sent, its offsets are the sums
  of the counts of the tires before it, and its arrays have the size of its counts.\<close>

definition tire_registered :: "(nat \<Rightarrow> 32 word \<times> 32 word) \<Rightarrow> TerrainNode \<Rightarrow> nat \<Rightarrow> bool" where
  "tire_registered surf_props s i =
     (let td = m_tire_data s ! i in
        m_num_vert td = fst (surf_props i) \<and> m_num_tri td = snd (surf_props i)
      \<and> m_start_vert td = (\<Sum>j<i. fst (surf_props j))
      \<and> m_start_tri td = (\<Sum>j<i. snd (surf_props j))
      \<and> length (m_vertex_states td) = unat (fst (surf_props i))
      \<and> length (m_triangles td) = unat (snd (surf_props i)))"

text \<open>The number of mesh elements of a tire that have a proxy, and the offset of the
  tire among them: vertices for a rigid terrain, triangles for a granular one.\<close>

definition num_elements :: "TerrainNode \<Rightarrow> nat \<Rightarrow> nat" where
  "num_elements s i =
     (case m_type s of
        RIGID \<Rightarrow> unat (m_num_vert (m_tire_data s ! i))
      | GRANULAR \<Rightarrow> unat (m_num_tri (m_tire_data s ! i)))"

definition start_element :: "TerrainNode \<Rightarrow> nat \<Rightarrow> 32 word" where
  "start_element s i =
     (case m_type s of
        RIGID \<Rightarrow> m_start_vert (m_tire_data s ! i)
      | GRANULAR \<Rightarrow> m_start_tri (m_tire_data s ! i))"

text \<open>The proxies of tire \<open>i\<close> are created: there is one for each element, the proxy
  of element \<open>j\<close> holds the index \<open>j\<close> and the address of a body of its own, and that
  body has the identifier \<open>start + j\<close>.\<close>

definition proxies_created :: "TerrainNode \<Rightarrow> nat \<Rightarrow> bool" where
  "proxies_created s i =
     (length (m_proxies (m_tire_data s ! i)) = num_elements s i
      \<and> (\<exists>a. a + num_elements s i \<le> length (bodylist (m_system s))
            \<and> (\<forall>j<num_elements s i.
                   m_proxies (m_tire_data s ! i) ! j = \<lparr>m_body = a + j, m_index = of_nat j\<rparr>
                 \<and> Identifier (bodylist (m_system s) ! (a + j)) = start_element s i + of_nat j)))"

text \<open>The vertices of a tire whose proxy carries a force, in the order of the loop of
  \<open>ForcesNodeProxies\<close>.\<close>

definition contacting_vertices :: "environment \<Rightarrow> TerrainNode \<Rightarrow> nat \<Rightarrow> nat list" where
  "contacting_vertices env s which =
     filter (\<lambda>iv. \<not> IsZero env (GetBodyContactForce env (m_system s)
                                    (m_body (m_proxies (m_tire_data s ! which) ! iv))))
       [0 ..< unat (m_num_vert (m_tire_data s ! which))]"

text \<open>The states of the three vertices of triangle \<open>it\<close> of a tire, and what it means
  that the vertex indices of the triangle are inside the array of vertex states.\<close>

definition triangle_states :: "TireData \<Rightarrow> nat \<Rightarrow> VertexState \<times> VertexState \<times> VertexState" where
  "triangle_states td it =
     (let tri = m_triangles td ! it
      in (m_vertex_states td ! nat (sint (v1 tri)),
          m_vertex_states td ! nat (sint (v2 tri)),
          m_vertex_states td ! nat (sint (v3 tri))))"

definition triangle_in_range :: "TireData \<Rightarrow> nat \<Rightarrow> bool" where
  "triangle_in_range td it =
     (let tri = m_triangles td ! it; n = int (length (m_vertex_states td))
      in 0 \<le> sint (v1 tri) \<and> sint (v1 tri) < n
       \<and> 0 \<le> sint (v2 tri) \<and> sint (v2 tri) < n
       \<and> 0 \<le> sint (v3 tri) \<and> sint (v3 tri) < n)"

text \<open>The proxy of triangle \<open>it\<close> of a tire and its contact shape are up to date in a
  system: the body is at the centroid of the three vertices with the identity as
  orientation, it has the mean of the three vertex velocities and no angular
  velocity, and the three slots of its triangle shape hold the vertices relative to
  the centroid.\<close>

definition face_proxy_updated :: "TireData \<Rightarrow> ChSystemParallel \<Rightarrow> nat \<Rightarrow> bool" where
  "face_proxy_updated td sys it =
     (case triangle_states td it of (sA, sB, sC) \<Rightarrow>
        let c = vec_div (vs_pos sA + vs_pos sB + vs_pos sC) 3;
            b = bodylist sys ! m_body (m_proxies td ! it);
            off = 3 * (unat (m_start_tri td) + it)
        in pos b = c
         \<and> rot b = ChQuaternion 1 0 0 0
         \<and> pos_dt b = vec_div (vs_vel sA + vs_vel sB + vs_vel sC) 3
         \<and> rot_dt b = ChQuaternion 0 0 0 0
         \<and> triangle_rigid sys ! off = vs_pos sA - c
         \<and> triangle_rigid sys ! (off + 1) = vs_pos sB - c
         \<and> triangle_rigid sys ! (off + 2) = vs_pos sC - c)"

text \<open>What triangle \<open>it\<close> of a tire gives to the vertex with index \<open>v\<close> in
  \<open>ForcesFaceProxies\<close>: nothing when the force on its proxy is zero, and otherwise a
  third of that force for each corner of the triangle that is \<open>v\<close>.\<close>

definition vertex_share :: "environment \<Rightarrow> TerrainNode \<Rightarrow> nat \<Rightarrow> nat \<Rightarrow> 32 word \<Rightarrow> ChVector" where
  "vertex_share env s which it v =
     (let td = m_tire_data s ! which;
          tri = m_triangles td ! it;
          rforce = GetBodyContactForce env (m_system s) (m_body (m_proxies td ! it));
          force = ChVector (vec_x rforce / 3) (vec_y rforce / 3) (vec_z rforce / 3)
      in if IsZero env rforce then 0
         else (if v1 tri = v then force else 0) + (if v2 tri = v then force else 0)
              + (if v3 tri = v then force else 0))"

text \<open>The force that a map holds for a key, zero for a key that it does not hold.\<close>

definition force_at :: "(32 word \<times> ChVector) list \<Rightarrow> 32 word \<Rightarrow> ChVector" where
  "force_at my_map v = (case map_of my_map v of None \<Rightarrow> 0 | Some f \<Rightarrow> f)"

section \<open>Properties\<close>

subsection \<open>Construct\<close>

lemma Construct_constructed: "m_constructed (Construct env s)"
  by (simp add: Construct_def Let_def split: prod.splits)

lemma Construct_use_checkpoint: "m_use_checkpoint (Construct env s) = m_use_checkpoint s"
  by (simp add: Construct_def Let_def split: prod.splits)

text \<open>
  \<^bold>\<open>C6.\<close> \<open>Construct\<close> is idempotent. It leaves the node constructed; a second call
  returns the node of the first call, so the body list, the shape arrays and their
  counters, the particle count, \<open>m_particles_start_index\<close> and \<open>m_proxy_start_index\<close>
  are those of the first call; and on any node that is marked constructed, whatever
  \<open>Settle\<close> or \<open>Initialize\<close> did to it in between, the call changes nothing.
\<close>

theorem Construct_idempotent:
  "m_constructed (Construct env s)
   \<and> Construct env (Construct env s) = Construct env s
   \<and> Construct env (s\<lparr>m_constructed := True\<rparr>) = s\<lparr>m_constructed := True\<rparr>"
proof -
  have c: "m_constructed (Construct env s)"
    by (simp add: Construct_def Let_def split: prod.splits)
  have "Construct env (Construct env s) = Construct env s"
    using c by (subst Construct_def) simp
  moreover have "Construct env (s\<lparr>m_constructed := True\<rparr>) = s\<lparr>m_constructed := True\<rparr>"
    by (simp add: Construct_def)
  ultimately show ?thesis using c by simp
qed

subsection \<open>Checkpoints\<close>

lemmas example_defs = Construct_def example_env_def example_granular_def TerrainNode_new_def
  Let_def AddBody_def NewBody_def new_system_def numeral_2_eq_2 upd_body_def

lemma example_granular_num_particles:
  "m_num_particles (Construct example_env example_granular) = 2"
  by (simp add: example_defs)

text \<open>
  \<^bold>\<open>C4.\<close> When \<open>Settle\<close> starts from a checkpoint whose count differs from the number of
  particles that \<open>Construct\<close> has generated, the run stops with \<^verbatim>\<open>MPI_Abort\<close> after
  the message of the inconsistency, and the node at that moment is the node that
  \<open>Construct\<close> built: no line of the file has been applied to a body.
\<close>

theorem Settle_inconsistent_checkpoint_aborts:
  assumes "m_use_checkpoint s" and "NDEBUG env \<or> m_type s = GRANULAR"
    and "cp_num_particles ifile \<noteq> m_num_particles (Construct env s)"
  shows "Settle env ifile s =
     Inl (MPI_Abort ''ERROR: inconsistent number of particles in checkpoint file!'',
          Construct env s)"
  using assms by (auto simp add: Settle_def Let_def Construct_use_checkpoint)

theorem Settle_inconsistent_checkpoint_aborts_witness:
  "m_use_checkpoint example_granular
   \<and> (NDEBUG example_env \<or> m_type example_granular = GRANULAR)
   \<and> cp_num_particles \<lparr>cp_time = 0, cp_num_particles = 3, cp_lines = []\<rparr>
       \<noteq> m_num_particles (Construct example_env example_granular)
   \<and> Settle example_env \<lparr>cp_time = 0, cp_num_particles = 3, cp_lines = []\<rparr> example_granular =
     Inl (MPI_Abort ''ERROR: inconsistent number of particles in checkpoint file!'',
          Construct example_env example_granular)"
proof -
  have 1: "m_use_checkpoint example_granular"
    by (simp add: example_granular_def TerrainNode_new_def)
  have 2: "NDEBUG example_env \<or> m_type example_granular = GRANULAR"
    by (simp add: example_granular_def TerrainNode_new_def)
  have 3: "cp_num_particles \<lparr>cp_time = 0, cp_num_particles = 3, cp_lines = []\<rparr>
       \<noteq> m_num_particles (Construct example_env example_granular)"
    by (simp add: example_granular_num_particles)
  from Settle_inconsistent_checkpoint_aborts[OF 1 2 3] 1 2 3 show ?thesis by blast
qed





subsection \<open>Advance\<close>

lemma Advance_loop_steps:
  assumes m: "0 < m"
  shows "t < step \<Longrightarrow> real n * m < step - t \<Longrightarrow> step - t \<le> real (Suc n) * m \<Longrightarrow>
     Advance_loop env m step t sys hs =
       Some (foldl (\<lambda>sys h. DoStepDynamics env h sys) sys (replicate n m @ [step - t - real n * m]),
             hs @ replicate n m @ [step - t - real n * m])"
proof (induction n arbitrary: t sys hs)
  case 0
  then have h: "min m (step - t) = step - t" by simp
  show ?case
    using 0 by (subst Advance_loop.simps, simp add: h, subst Advance_loop.simps, simp)
next
  case (Suc n)
  have lt: "m < step - t"
  proof -
    have "m \<le> real (Suc n) * m" using m by simp
    with Suc.prems(2) show ?thesis by linarith
  qed
  then have h: "min m (step - t) = m" by simp
  have 1: "t + m < step" using lt by simp
  have 2: "real n * m < step - (t + m)" using Suc.prems(2) by (simp add: algebra_simps)
  have 3: "step - (t + m) \<le> real (Suc n) * m" using Suc.prems(3) by (simp add: algebra_simps)
  have e: "step - (t + m) - real n * m = step - t - real (Suc n) * m" by (simp add: algebra_simps)
  show ?case
    using Suc.prems(1)
    by (subst Advance_loop.simps) (simp add: h Suc.IH[OF 1 2 3] e replicate_app_Cons_same)
qed

lemma ceiling_bounds:
  assumes "0 < (m::real)" "0 < step"
  shows "real (nat \<lceil>step / m\<rceil> - 1) * m < step \<and> step \<le> real (Suc (nat \<lceil>step / m\<rceil> - 1)) * m"
proof -
  let ?c = "\<lceil>step / m\<rceil>"
  have pos: "0 < step / m" using assms by simp
  then have c1: "1 \<le> ?c" by (simp add: ceiling_le_iff[symmetric] less_ceiling_iff) 
  have up: "step / m \<le> of_int ?c" by (rule le_of_int_ceiling)
  have lo: "of_int ?c - 1 < step / m" using ceiling_correct[of "step / m"] by linarith
  define k where "k = nat ?c - 1"
  have "0 < nat ?c" using c1 by simp
  then have sk: "Suc k = nat ?c" by (simp add: k_def)
  have ck: "of_int ?c = real (Suc k)"
    unfolding sk using c1 by simp
  have nk: "nat ?c - 1 = k" by (simp add: k_def)
  have n: "real (nat ?c - 1) = of_int ?c - 1" unfolding nk ck by simp
  have n2: "real (Suc (nat ?c - 1)) = of_int ?c" unfolding nk ck by simp
  have "(of_int ?c - 1) * m < step" using lo assms(1) by (simp add: pos_less_divide_eq)
  moreover have "step \<le> of_int ?c * m"
    using up unfolding pos_divide_le_eq[OF assms(1)] .
  ultimately show ?thesis unfolding n n2 by simp
qed

text \<open>
  \<^bold>\<open>C7.\<close> For a macro step \<open>step_size > 0\<close> and a micro step \<open>m_step_size > 0\<close> the loop
  of \<open>Advance\<close> ends. It has called the dynamics once for each step size of a list
  \<open>hs\<close>, in order; \<open>hs\<close> has \<open>\<lceil>step_size / m_step_size\<rceil>\<close> entries, each positive and at most
  \<open>m_step_size\<close>, all but the last equal to \<open>m_step_size\<close>, the last equal to what the
  others leave of \<open>step_size\<close>; and the entries sum to \<open>step_size\<close>.
\<close>

theorem Advance_subdivides:
  assumes "0 < step_size" and "0 < m_step_size s"
  shows "\<exists>sys hs. Advance env step_size s = Some (s\<lparr>m_system := sys\<rparr>, hs) \<and>
     sys = foldl (\<lambda>sys h. DoStepDynamics env h sys) (m_system s) hs \<and>
     length hs = nat \<lceil>step_size / m_step_size s\<rceil> \<and>
     (\<forall>h \<in> set hs. 0 < h \<and> h \<le> m_step_size s) \<and>
     (\<forall>h \<in> set (butlast hs). h = m_step_size s) \<and>
     last hs = step_size - sum_list (butlast hs) \<and>
     sum_list hs = step_size"
proof -
  let ?m = "m_step_size s"
  let ?n = "nat \<lceil>step_size / ?m\<rceil> - 1"
  let ?r = "step_size - 0 - real ?n * ?m"
  let ?hs = "replicate ?n ?m @ [?r]"
  from ceiling_bounds[OF assms(2,1)]
  have lo: "real ?n * ?m < step_size" and up: "step_size \<le> real (Suc ?n) * ?m" by simp_all
  have c1: "1 \<le> nat \<lceil>step_size / ?m\<rceil>" using assms by (simp add: Suc_le_eq)
  have A: "Advance_loop env ?m step_size 0 (m_system s) [] =
      Some (foldl (\<lambda>sys h. DoStepDynamics env h sys) (m_system s) ?hs, [] @ ?hs)"
    by (rule Advance_loop_steps[OF assms(2)]) (use assms lo up in simp_all)
  have r: "0 < ?r" "?r \<le> ?m" using lo up by (simp_all add: algebra_simps)
  have "Advance env step_size s =
      Some (s\<lparr>m_system := foldl (\<lambda>sys h. DoStepDynamics env h sys) (m_system s) ?hs\<rparr>, ?hs)"
    by (simp only: Advance_def A) simp
  moreover have "length ?hs = nat \<lceil>step_size / ?m\<rceil>" using c1 by simp
  moreover have "\<forall>h \<in> set ?hs. 0 < h \<and> h \<le> ?m" using r assms(2) by auto
  moreover have "\<forall>h \<in> set (butlast ?hs). h = ?m" by simp
  moreover have "last ?hs = step_size - sum_list (butlast ?hs)" by (simp add: sum_list_replicate)
  moreover have "sum_list ?hs = step_size" by (simp add: sum_list_replicate)
  ultimately show ?thesis by blast
qed

theorem Advance_subdivides_witness:
  "(0::real) < 1 \<and> 0 < m_step_size example_granular
   \<and> (\<exists>sys hs. Advance example_env 1 example_granular = Some (example_granular\<lparr>m_system := sys\<rparr>, hs)
        \<and> sys = foldl (\<lambda>sys h. DoStepDynamics example_env h sys) (m_system example_granular) hs
        \<and> length hs = 3
        \<and> (\<forall>h \<in> set hs. 0 < h \<and> h \<le> 2/5)
        \<and> (\<forall>h \<in> set (butlast hs). h = 2/5)
        \<and> last hs = 1 - sum_list (butlast hs)
        \<and> sum_list hs = 1)"
proof -
  have m: "m_step_size example_granular = 2/5"
    by (simp add: example_granular_def TerrainNode_new_def)
  have 1: "(0::real) < 1" by simp
  have 2: "0 < m_step_size example_granular" by (simp add: m)
  have c: "nat \<lceil>(1::real) / (2/5)\<rceil> = 3"
  proof -
    have "\<lceil>(1::real) / (2/5)\<rceil> = 3" by (simp add: ceiling_eq_iff)
    then show ?thesis by simp
  qed
  from Advance_subdivides[OF 1 2, of example_env] 1 2 show ?thesis
    unfolding m c by simp
qed

subsection \<open>The handshake\<close>

lemma bodylist_add_shape: "bodylist (add_shape sys sh) = bodylist sys"
  by (cases sh) simp_all

lemma bodylist_foldl_add_shape: "bodylist (foldl add_shape sys shs) = bodylist sys"
  by (induction shs arbitrary: sys) (simp_all add: bodylist_add_shape)

lemma bodylist_AddBody: "bodylist (AddBody sys b) = bodylist sys @ [b]"
  by (simp add: AddBody_def Let_def bodylist_foldl_add_shape)

lemma CreateNodeProxies_step_frame:
  "(CreateNodeProxies_step which I s iv)\<lparr>m_system := X, m_tire_data := Y\<rparr> = s\<lparr>m_system := X, m_tire_data := Y\<rparr>"
  by (simp add: CreateNodeProxies_step_def Let_def)

lemma CreateFaceProxies_step_frame:
  "(CreateFaceProxies_step which I s iv)\<lparr>m_system := X, m_tire_data := Y\<rparr> = s\<lparr>m_system := X, m_tire_data := Y\<rparr>"
  by (simp add: CreateFaceProxies_step_def Let_def)

lemma CreateNodeProxies_fold:
  assumes w: "which < length (m_tire_data s)"
  shows "(\<forall>X Y. (foldl (CreateNodeProxies_step which I) s [0 ..< k])\<lparr>m_system := X, m_tire_data := Y\<rparr>
            = s\<lparr>m_system := X, m_tire_data := Y\<rparr>)
    \<and> m_tire_data (foldl (CreateNodeProxies_step which I) s [0 ..< k]) =
        (m_tire_data s)[which := (m_tire_data s ! which)\<lparr>m_proxies := m_proxies (m_tire_data s ! which) @
            map (\<lambda>iv. \<lparr>m_body = length (bodylist (m_system s)) + iv, m_index = of_nat iv\<rparr>) [0 ..< k]\<rparr>]
    \<and> length (bodylist (m_system (foldl (CreateNodeProxies_step which I) s [0 ..< k])))
        = length (bodylist (m_system s)) + k
    \<and> take (length (bodylist (m_system s)))
         (bodylist (m_system (foldl (CreateNodeProxies_step which I) s [0 ..< k])))
        = bodylist (m_system s)
    \<and> (\<forall>iv<k. Identifier (bodylist (m_system (foldl (CreateNodeProxies_step which I) s [0 ..< k]))
                  ! (length (bodylist (m_system s)) + iv))
              = m_start_vert (m_tire_data s ! which) + of_nat iv)
    \<and> triangle_rigid (m_system (foldl (CreateNodeProxies_step which I) s [0 ..< k]))
        = triangle_rigid (m_system s)"
proof (induction k)
  case 0
  show ?case using w by simp
next
  case (Suc k)
  let ?s = "foldl (CreateNodeProxies_step which I) s [0 ..< k]"
  let ?L = "length (bodylist (m_system s))"
  let ?td = "m_tire_data s ! which"
  from Suc have
    1: "\<And>X Y. ?s\<lparr>m_system := X, m_tire_data := Y\<rparr> = s\<lparr>m_system := X, m_tire_data := Y\<rparr>" and
    2: "m_tire_data ?s = (m_tire_data s)[which := ?td\<lparr>m_proxies := m_proxies ?td @
            map (\<lambda>iv. \<lparr>m_body = ?L + iv, m_index = of_nat iv\<rparr>) [0 ..< k]\<rparr>]" and
    3: "length (bodylist (m_system ?s)) = ?L + k" and
    4: "take ?L (bodylist (m_system ?s)) = bodylist (m_system s)" and
    5: "\<forall>iv<k. Identifier (bodylist (m_system ?s) ! (?L + iv)) = m_start_vert ?td + of_nat iv" and
    6: "triangle_rigid (m_system ?s) = triangle_rigid (m_system s)"
    by blast+
  have tdw: "m_tire_data ?s ! which = ?td\<lparr>m_proxies := m_proxies ?td @
            map (\<lambda>iv. \<lparr>m_body = ?L + iv, m_index = of_nat iv\<rparr>) [0 ..< k]\<rparr>"
    using 2 w by simp
  have f: "foldl (CreateNodeProxies_step which I) s [0 ..< Suc k] = CreateNodeProxies_step which I ?s k"
    by simp
  have a: "\<forall>X Y. (CreateNodeProxies_step which I ?s k)\<lparr>m_system := X, m_tire_data := Y\<rparr>
            = s\<lparr>m_system := X, m_tire_data := Y\<rparr>"
    using 1 by (simp add: CreateNodeProxies_step_frame)
  have b: "m_tire_data (CreateNodeProxies_step which I ?s k) =
      (m_tire_data s)[which := ?td\<lparr>m_proxies := m_proxies ?td @
            map (\<lambda>iv. \<lparr>m_body = ?L + iv, m_index = of_nat iv\<rparr>) [0 ..< Suc k]\<rparr>]"
    using 2 3 w by (simp add: CreateNodeProxies_step_def Let_def)
  have bl: "bodylist (m_system (CreateNodeProxies_step which I ?s k)) =
      bodylist (m_system ?s) @ [NewBody\<lparr>Identifier := m_start_vert ?td + of_nat k,
            mass := m_mass_pN ?s, inertiaXX := I,
            body_fixed := m_fixed_proxies ?s, collide := True,
            material := m_material_tire ?td,
            shapes := [Sphere (m_radius_pN ?s) (ChVector 0 0 0)],
            family := 1, no_collision_with := [1]\<rparr>]"
    by (simp add: CreateNodeProxies_step_def Let_def bodylist_AddBody tdw)
  have c: "length (bodylist (m_system (CreateNodeProxies_step which I ?s k))) = ?L + Suc k"
    using 3 by (simp add: bl)
  have d: "take ?L (bodylist (m_system (CreateNodeProxies_step which I ?s k))) = bodylist (m_system s)"
    using 3 4 by (simp add: bl)
  have e: "\<forall>iv<Suc k. Identifier (bodylist (m_system (CreateNodeProxies_step which I ?s k)) ! (?L + iv))
       = m_start_vert ?td + of_nat iv"
    using 3 5 by (auto simp add: bl nth_append less_Suc_eq)
  have g: "triangle_rigid (m_system (CreateNodeProxies_step which I ?s k)) = triangle_rigid (m_system s)"
    using 6 by (simp add: CreateNodeProxies_step_def Let_def AddBody_def)
  show ?case unfolding f using a b c d e g by blast
qed

lemma CreateFaceProxies_fold:
  assumes w: "which < length (m_tire_data s)"
  shows "(\<forall>X Y. (foldl (CreateFaceProxies_step which I) s [0 ..< k])\<lparr>m_system := X, m_tire_data := Y\<rparr>
            = s\<lparr>m_system := X, m_tire_data := Y\<rparr>)
    \<and> m_tire_data (foldl (CreateFaceProxies_step which I) s [0 ..< k]) =
        (m_tire_data s)[which := (m_tire_data s ! which)\<lparr>m_proxies := m_proxies (m_tire_data s ! which) @
            map (\<lambda>iv. \<lparr>m_body = length (bodylist (m_system s)) + iv, m_index = of_nat iv\<rparr>) [0 ..< k]\<rparr>]
    \<and> length (bodylist (m_system (foldl (CreateFaceProxies_step which I) s [0 ..< k])))
        = length (bodylist (m_system s)) + k
    \<and> take (length (bodylist (m_system s)))
         (bodylist (m_system (foldl (CreateFaceProxies_step which I) s [0 ..< k])))
        = bodylist (m_system s)
    \<and> (\<forall>iv<k. Identifier (bodylist (m_system (foldl (CreateFaceProxies_step which I) s [0 ..< k]))
                  ! (length (bodylist (m_system s)) + iv))
              = m_start_tri (m_tire_data s ! which) + of_nat iv)
    \<and> length (triangle_rigid (m_system (foldl (CreateFaceProxies_step which I) s [0 ..< k])))
        = length (triangle_rigid (m_system s)) + 3 * k"
proof (induction k)
  case 0
  show ?case using w by simp
next
  case (Suc k)
  let ?s = "foldl (CreateFaceProxies_step which I) s [0 ..< k]"
  let ?L = "length (bodylist (m_system s))"
  let ?td = "m_tire_data s ! which"
  from Suc have
    1: "\<And>X Y. ?s\<lparr>m_system := X, m_tire_data := Y\<rparr> = s\<lparr>m_system := X, m_tire_data := Y\<rparr>" and
    2: "m_tire_data ?s = (m_tire_data s)[which := ?td\<lparr>m_proxies := m_proxies ?td @
            map (\<lambda>iv. \<lparr>m_body = ?L + iv, m_index = of_nat iv\<rparr>) [0 ..< k]\<rparr>]" and
    3: "length (bodylist (m_system ?s)) = ?L + k" and
    4: "take ?L (bodylist (m_system ?s)) = bodylist (m_system s)" and
    5: "\<forall>iv<k. Identifier (bodylist (m_system ?s) ! (?L + iv)) = m_start_tri ?td + of_nat iv" and
    6: "length (triangle_rigid (m_system ?s)) = length (triangle_rigid (m_system s)) + 3 * k"
    by blast+
  have tdw: "m_tire_data ?s ! which = ?td\<lparr>m_proxies := m_proxies ?td @
            map (\<lambda>iv. \<lparr>m_body = ?L + iv, m_index = of_nat iv\<rparr>) [0 ..< k]\<rparr>"
    using 2 w by simp
  have f: "foldl (CreateFaceProxies_step which I) s [0 ..< Suc k] = CreateFaceProxies_step which I ?s k"
    by simp
  have a: "\<forall>X Y. (CreateFaceProxies_step which I ?s k)\<lparr>m_system := X, m_tire_data := Y\<rparr>
            = s\<lparr>m_system := X, m_tire_data := Y\<rparr>"
    using 1 by (simp add: CreateFaceProxies_step_frame)
  have b: "m_tire_data (CreateFaceProxies_step which I ?s k) =
      (m_tire_data s)[which := ?td\<lparr>m_proxies := m_proxies ?td @
            map (\<lambda>iv. \<lparr>m_body = ?L + iv, m_index = of_nat iv\<rparr>) [0 ..< Suc k]\<rparr>]"
    using 2 3 w by (simp add: CreateFaceProxies_step_def Let_def)
  have bl: "bodylist (m_system (CreateFaceProxies_step which I ?s k)) =
      bodylist (m_system ?s) @ [NewBody\<lparr>Identifier := m_start_tri ?td + of_nat k,
            mass := m_mass_pF ?s, inertiaXX := I,
            body_fixed := m_fixed_proxies ?s, collide := True,
            material := m_material_tire ?td,
            shapes := [Triangle (ChVector (1/10) 0 0) (ChVector 0 (1/10) 0) (ChVector 0 0 (1/10))],
            family := 1, no_collision_with := [1]\<rparr>]"
    by (simp add: CreateFaceProxies_step_def Let_def bodylist_AddBody tdw)
  have c: "length (bodylist (m_system (CreateFaceProxies_step which I ?s k))) = ?L + Suc k"
    using 3 by (simp add: bl)
  have d: "take ?L (bodylist (m_system (CreateFaceProxies_step which I ?s k))) = bodylist (m_system s)"
    using 3 4 by (simp add: bl)
  have e: "\<forall>iv<Suc k. Identifier (bodylist (m_system (CreateFaceProxies_step which I ?s k)) ! (?L + iv))
       = m_start_tri ?td + of_nat iv"
    using 3 5 by (auto simp add: bl nth_append less_Suc_eq)
  have g: "length (triangle_rigid (m_system (CreateFaceProxies_step which I ?s k)))
      = length (triangle_rigid (m_system s)) + 3 * Suc k"
    using 6 by (simp add: CreateFaceProxies_step_def Let_def AddBody_def)
  show ?case unfolding f using a b c d e g by blast
qed

lemma bindE_Inr_iff: "bindE m f = Inr b \<longleftrightarrow> (\<exists>a. m = Inr a \<and> f a = Inr b)"
  by (cases m) (simp_all add: bindE_def)

lemma foldE_upt_invariant:
  assumes "foldE f [k ..< n] a = Inr b" and "k \<le> n" and "P k a"
    and step: "\<And>j a a'. j < n \<Longrightarrow> P j a \<Longrightarrow> f j a = Inr a' \<Longrightarrow> P (Suc j) a'"
  shows "P n b"
  using assms(1-3)
proof (induction "n - k" arbitrary: k a)
  case 0
  then show ?case by simp
next
  case (Suc d)
  then have kn: "k < n" by simp
  then have u: "[k ..< n] = k # [Suc k ..< n]" by (simp add: upt_rec)
  from Suc.prems(1) obtain a' where a': "f k a = Inr a'" and r: "foldE f [Suc k ..< n] a' = Inr b"
    unfolding u by (auto simp: bindE_Inr_iff)
  have P': "P (Suc k) a'" by (rule step[OF kn Suc.prems(3) a'])
  have "P n b"
  proof (rule Suc.hyps(1)[OF _ r _ P'])
    show "d = n - Suc k" using Suc.hyps(2) by simp
    show "Suc k \<le> n" using kn by simp
  qed
  then show ?case .
qed

lemma CreateNodeProxies_effect:
  assumes w: "which < length (m_tire_data s)"
  defines "n \<equiv> unat (m_num_vert (m_tire_data s ! which))"
  defines "L \<equiv> length (bodylist (m_system s))"
  shows "(CreateNodeProxies which s)\<lparr>m_system := X, m_tire_data := Y\<rparr> = s\<lparr>m_system := X, m_tire_data := Y\<rparr>"
    and "m_tire_data (CreateNodeProxies which s) =
        (m_tire_data s)[which := (m_tire_data s ! which)\<lparr>m_proxies := m_proxies (m_tire_data s ! which) @
            map (\<lambda>iv. \<lparr>m_body = L + iv, m_index = of_nat iv\<rparr>) [0 ..< n]\<rparr>]"
    and "length (bodylist (m_system (CreateNodeProxies which s))) = L + n"
    and "take L (bodylist (m_system (CreateNodeProxies which s))) = bodylist (m_system s)"
    and "\<And>iv. iv < n \<Longrightarrow> Identifier (bodylist (m_system (CreateNodeProxies which s)) ! (L + iv))
              = m_start_vert (m_tire_data s ! which) + of_nat iv"
    and "triangle_rigid (m_system (CreateNodeProxies which s)) = triangle_rigid (m_system s)"
  using CreateNodeProxies_fold[OF w, of "vec_scale (4 / 10 * m_mass_pN s * m_radius_pN s * m_radius_pN s) (ChVector 1 1 1)" n]
  unfolding CreateNodeProxies_def n_def L_def by blast+

lemma CreateFaceProxies_effect:
  assumes w: "which < length (m_tire_data s)"
  defines "n \<equiv> unat (m_num_tri (m_tire_data s ! which))"
  defines "L \<equiv> length (bodylist (m_system s))"
  shows "(CreateFaceProxies which s)\<lparr>m_system := X, m_tire_data := Y\<rparr> = s\<lparr>m_system := X, m_tire_data := Y\<rparr>"
    and "m_tire_data (CreateFaceProxies which s) =
        (m_tire_data s)[which := (m_tire_data s ! which)\<lparr>m_proxies := m_proxies (m_tire_data s ! which) @
            map (\<lambda>iv. \<lparr>m_body = L + iv, m_index = of_nat iv\<rparr>) [0 ..< n]\<rparr>]"
    and "length (bodylist (m_system (CreateFaceProxies which s))) = L + n"
    and "take L (bodylist (m_system (CreateFaceProxies which s))) = bodylist (m_system s)"
    and "\<And>iv. iv < n \<Longrightarrow> Identifier (bodylist (m_system (CreateFaceProxies which s)) ! (L + iv))
              = m_start_tri (m_tire_data s ! which) + of_nat iv"
    and "length (triangle_rigid (m_system (CreateFaceProxies which s)))
           = length (triangle_rigid (m_system s)) + 3 * n"
  using CreateFaceProxies_fold[OF w, of "vec_scale (1 / 1000 * m_mass_pF s) (ChVector (1/10) (1/10) (1/10))" n]
  unfolding CreateFaceProxies_def n_def L_def by blast+

lemma create_proxies_effect:
  assumes w: "which < length (m_tire_data s)"
  shows "(create_proxies which s)\<lparr>m_system := X, m_tire_data := Y\<rparr> = s\<lparr>m_system := X, m_tire_data := Y\<rparr>"
    and "m_tire_data (create_proxies which s) =
        (m_tire_data s)[which := (m_tire_data s ! which)\<lparr>m_proxies := m_proxies (m_tire_data s ! which) @
            map (\<lambda>iv. \<lparr>m_body = length (bodylist (m_system s)) + iv, m_index = of_nat iv\<rparr>)
              [0 ..< num_elements s which]\<rparr>]"
    and "length (bodylist (m_system (create_proxies which s)))
           = length (bodylist (m_system s)) + num_elements s which"
    and "take (length (bodylist (m_system s))) (bodylist (m_system (create_proxies which s)))
           = bodylist (m_system s)"
    and "\<And>iv. iv < num_elements s which \<Longrightarrow>
           Identifier (bodylist (m_system (create_proxies which s)) ! (length (bodylist (m_system s)) + iv))
              = start_element s which + of_nat iv"
proof -
  show "(create_proxies which s)\<lparr>m_system := X, m_tire_data := Y\<rparr> = s\<lparr>m_system := X, m_tire_data := Y\<rparr>"
    by (cases "m_type s")
       (simp_all add: create_proxies_def CreateNodeProxies_effect(1)[OF w] CreateFaceProxies_effect(1)[OF w])
  show "m_tire_data (create_proxies which s) =
        (m_tire_data s)[which := (m_tire_data s ! which)\<lparr>m_proxies := m_proxies (m_tire_data s ! which) @
            map (\<lambda>iv. \<lparr>m_body = length (bodylist (m_system s)) + iv, m_index = of_nat iv\<rparr>)
              [0 ..< num_elements s which]\<rparr>]"
    by (cases "m_type s")
       (simp_all add: create_proxies_def num_elements_def
          CreateNodeProxies_effect(2)[OF w] CreateFaceProxies_effect(2)[OF w])
  show "length (bodylist (m_system (create_proxies which s)))
           = length (bodylist (m_system s)) + num_elements s which"
    by (cases "m_type s")
       (simp_all add: create_proxies_def num_elements_def
          CreateNodeProxies_effect(3)[OF w] CreateFaceProxies_effect(3)[OF w])
  show "take (length (bodylist (m_system s))) (bodylist (m_system (create_proxies which s)))
           = bodylist (m_system s)"
    by (cases "m_type s")
       (simp_all add: create_proxies_def
          CreateNodeProxies_effect(4)[OF w] CreateFaceProxies_effect(4)[OF w])
  show "\<And>iv. iv < num_elements s which \<Longrightarrow>
           Identifier (bodylist (m_system (create_proxies which s)) ! (length (bodylist (m_system s)) + iv))
              = start_element s which + of_nat iv"
    by (cases "m_type s")
       (simp_all add: create_proxies_def num_elements_def start_element_def
          CreateNodeProxies_effect(5)[OF w] CreateFaceProxies_effect(5)[OF w])
qed

lemma create_proxies_type: "which < length (m_tire_data s) \<Longrightarrow> m_type (create_proxies which s) = m_type s"
  using arg_cong[OF create_proxies_effect(1)[of which s undefined undefined], of m_type] by simp

lemma Initialize_tire_eq:
  "Initialize_tire sp mp which (s, sv, stt) =
     (if length (m_tire_data s) \<le> which then Inl OutOfBounds
      else Inr (create_proxies which
        (s\<lparr>m_tire_data := (m_tire_data s)[which := (m_tire_data s ! which)\<lparr>m_num_vert := fst (sp which),
                m_num_tri := snd (sp which),
                m_vertex_states := resize (unat (fst (sp which)))
                   \<lparr>vs_pos = ChVector 0 0 0, vs_vel = ChVector 0 0 0\<rparr> (m_vertex_states (m_tire_data s ! which)),
                m_triangles := resize (unat (snd (sp which)))
                   \<lparr>v1 = 0, v2 = 0, v3 = 0\<rparr> (m_triangles (m_tire_data s ! which)),
                m_start_vert := sv,
                m_start_tri := stt,
                m_material_tire := Some (case m_method s of
                  SMC \<Rightarrow> ChMaterialSurfaceSMC (map (mp which) [0 ..< 8])
                | NSC \<Rightarrow> ChMaterialSurfaceNSC (map (mp which) [0 ..< 2]))\<rparr>]\<rparr>),
        sv + fst (sp which), stt + snd (sp which)))"
  by (simp add: Initialize_tire_def Let_def create_proxies_def)

lemma length_resize: "length (resize n d xs) = n"
  by (simp add: resize_def)

lemma Initialize_tire_step:
  assumes r: "Initialize_tire sp mp k (s, sv, stt) = Inr st'"
  obtains s' where "st' = (s', sv + fst (sp k), stt + snd (sp k))"
    and "k < length (m_tire_data s)"
    and "length (m_tire_data s') = length (m_tire_data s)"
    and "m_type s' = m_type s"
    and "\<And>i. i \<noteq> k \<Longrightarrow> m_tire_data s' ! i = m_tire_data s ! i"
    and "m_num_vert (m_tire_data s' ! k) = fst (sp k)"
    and "m_num_tri (m_tire_data s' ! k) = snd (sp k)"
    and "m_start_vert (m_tire_data s' ! k) = sv"
    and "m_start_tri (m_tire_data s' ! k) = stt"
    and "length (m_vertex_states (m_tire_data s' ! k)) = unat (fst (sp k))"
    and "length (m_triangles (m_tire_data s' ! k)) = unat (snd (sp k))"
    and "m_proxies (m_tire_data s' ! k) = m_proxies (m_tire_data s ! k) @
           map (\<lambda>iv. \<lparr>m_body = length (bodylist (m_system s)) + iv, m_index = of_nat iv\<rparr>)
             [0 ..< num_elements s' k]"
    and "length (bodylist (m_system s')) = length (bodylist (m_system s)) + num_elements s' k"
    and "\<And>a. a < length (bodylist (m_system s)) \<Longrightarrow>
           bodylist (m_system s') ! a = bodylist (m_system s) ! a"
    and "\<And>j. j < num_elements s' k \<Longrightarrow>
           Identifier (bodylist (m_system s') ! (length (bodylist (m_system s)) + j))
             = start_element s' k + of_nat j"
proof -
  define td' where "td' = (m_tire_data s ! k)\<lparr>m_num_vert := fst (sp k),
                m_num_tri := snd (sp k),
                m_vertex_states := resize (unat (fst (sp k)))
                   \<lparr>vs_pos = ChVector 0 0 0, vs_vel = ChVector 0 0 0\<rparr> (m_vertex_states (m_tire_data s ! k)),
                m_triangles := resize (unat (snd (sp k)))
                   \<lparr>v1 = 0, v2 = 0, v3 = 0\<rparr> (m_triangles (m_tire_data s ! k)),
                m_start_vert := sv,
                m_start_tri := stt,
                m_material_tire := Some (case m_method s of
                  SMC \<Rightarrow> ChMaterialSurfaceSMC (map (mp k) [0 ..< 8])
                | NSC \<Rightarrow> ChMaterialSurfaceNSC (map (mp k) [0 ..< 2]))\<rparr>"
  define s1 where "s1 = s\<lparr>m_tire_data := (m_tire_data s)[k := td']\<rparr>"
  define s' where "s' = create_proxies k s1"
  from r have kl: "k < length (m_tire_data s)"
    and st': "st' = (s', sv + fst (sp k), stt + snd (sp k))"
    unfolding Initialize_tire_eq s'_def s1_def td'_def by (auto split: if_splits)
  have td'f: "m_num_vert td' = fst (sp k)" "m_num_tri td' = snd (sp k)"
    "m_start_vert td' = sv" "m_start_tri td' = stt"
    "length (m_vertex_states td') = unat (fst (sp k))"
    "length (m_triangles td') = unat (snd (sp k))"
    "m_proxies td' = m_proxies (m_tire_data s ! k)"
    by (simp_all add: td'_def length_resize)
  have s1f: "m_tire_data s1 = (m_tire_data s)[k := td']" "m_system s1 = m_system s"
    "m_type s1 = m_type s"
    by (simp_all add: s1_def)
  have kl1: "k < length (m_tire_data s1)" using kl by (simp add: s1f)
  note eff = create_proxies_effect[OF kl1]
  have ty: "m_type s' = m_type s" using create_proxies_type[OF kl1] by (simp add: s'_def s1f)
  have ne1: "num_elements s1 k = (case m_type s of RIGID \<Rightarrow> unat (fst (sp k)) | GRANULAR \<Rightarrow> unat (snd (sp k)))"
    using kl by (simp add: num_elements_def s1f td'f split: Type.splits)
  have se1: "start_element s1 k = (case m_type s of RIGID \<Rightarrow> sv | GRANULAR \<Rightarrow> stt)"
    using kl by (simp add: start_element_def s1f td'f split: Type.splits)
  have tdk: "m_tire_data s' ! k = td'\<lparr>m_proxies := m_proxies (m_tire_data s ! k) @
       map (\<lambda>iv. \<lparr>m_body = length (bodylist (m_system s)) + iv, m_index = of_nat iv\<rparr>) [0 ..< num_elements s1 k]\<rparr>"
    using kl by (simp add: s'_def eff(2) s1f td'f)
  have tdi: "\<And>i. i \<noteq> k \<Longrightarrow> m_tire_data s' ! i = m_tire_data s ! i"
    by (simp add: s'_def eff(2) s1f)
  have len': "length (m_tire_data s') = length (m_tire_data s)" by (simp add: s'_def eff(2) s1f)
  have ne: "num_elements s' k = num_elements s1 k"
    by (simp add: num_elements_def ty tdk s1f kl s1f td'f split: Type.splits)
  have se: "start_element s' k = start_element s1 k"
    by (simp add: start_element_def ty tdk s1f kl td'f split: Type.splits)
  have old: "\<And>a. a < length (bodylist (m_system s)) \<Longrightarrow>
       bodylist (m_system s') ! a = bodylist (m_system s) ! a"
  proof -
    fix a assume a: "a < length (bodylist (m_system s))"
    have "bodylist (m_system s) ! a = take (length (bodylist (m_system s))) (bodylist (m_system s')) ! a"
      using eff(4) by (simp add: s'_def s1f)
    also have "\<dots> = bodylist (m_system s') ! a" using a by simp
    finally show "bodylist (m_system s') ! a = bodylist (m_system s) ! a" by simp
  qed
  show thesis
  proof (rule that[of s'])
    show "st' = (s', sv + fst (sp k), stt + snd (sp k))" by (rule st')
    show "k < length (m_tire_data s)" by (rule kl)
    show "length (m_tire_data s') = length (m_tire_data s)" by (rule len')
    show "m_type s' = m_type s" by (rule ty)
    show "\<And>i. i \<noteq> k \<Longrightarrow> m_tire_data s' ! i = m_tire_data s ! i" by (rule tdi)
    show "m_num_vert (m_tire_data s' ! k) = fst (sp k)" by (simp add: tdk td'f)
    show "m_num_tri (m_tire_data s' ! k) = snd (sp k)" by (simp add: tdk td'f)
    show "m_start_vert (m_tire_data s' ! k) = sv" by (simp add: tdk td'f)
    show "m_start_tri (m_tire_data s' ! k) = stt" by (simp add: tdk td'f)
    show "length (m_vertex_states (m_tire_data s' ! k)) = unat (fst (sp k))" by (simp add: tdk td'f)
    show "length (m_triangles (m_tire_data s' ! k)) = unat (snd (sp k))" by (simp add: tdk td'f)
    show "m_proxies (m_tire_data s' ! k) = m_proxies (m_tire_data s ! k) @
           map (\<lambda>iv. \<lparr>m_body = length (bodylist (m_system s)) + iv, m_index = of_nat iv\<rparr>)
             [0 ..< num_elements s' k]" by (simp add: tdk ne)
    show "length (bodylist (m_system s')) = length (bodylist (m_system s)) + num_elements s' k"
      using eff(3) by (simp add: s'_def[symmetric] s1f ne)
    show "\<And>a. a < length (bodylist (m_system s)) \<Longrightarrow>
           bodylist (m_system s') ! a = bodylist (m_system s) ! a" by (rule old)
    show "\<And>j. j < num_elements s' k \<Longrightarrow>
           Identifier (bodylist (m_system s') ! (length (bodylist (m_system s)) + j))
             = start_element s' k + of_nat j"
      using eff(5) by (simp add: s'_def[symmetric] s1f ne se)
  qed
qed

lemma Initialize_tire_registered:
  assumes inv: "case st of (s, sv, stt) \<Rightarrow> (\<forall>i<k. tire_registered sp s i)
                  \<and> sv = (\<Sum>j<k. fst (sp j)) \<and> stt = (\<Sum>j<k. snd (sp j))"
    and r: "Initialize_tire sp mp k st = Inr st'"
  shows "case st' of (s, sv, stt) \<Rightarrow> (\<forall>i<Suc k. tire_registered sp s i)
                  \<and> sv = (\<Sum>j<Suc k. fst (sp j)) \<and> stt = (\<Sum>j<Suc k. snd (sp j))"
proof -
  obtain s sv stt where st: "st = (s, sv, stt)" by (cases st) auto
  from inv have dn: "\<And>i. i < k \<Longrightarrow> tire_registered sp s i"
    and sv: "sv = (\<Sum>j<k. fst (sp j))" and stt: "stt = (\<Sum>j<k. snd (sp j))"
    unfolding st by auto
  from r[unfolded st] show ?thesis
  proof (rule Initialize_tire_step)
    fix s' assume st': "st' = (s', sv + fst (sp k), stt + snd (sp k))"
      and tdi: "\<And>i. i \<noteq> k \<Longrightarrow> m_tire_data s' ! i = m_tire_data s ! i"
      and f: "m_num_vert (m_tire_data s' ! k) = fst (sp k)"
        "m_num_tri (m_tire_data s' ! k) = snd (sp k)"
        "m_start_vert (m_tire_data s' ! k) = sv"
        "m_start_tri (m_tire_data s' ! k) = stt"
        "length (m_vertex_states (m_tire_data s' ! k)) = unat (fst (sp k))"
        "length (m_triangles (m_tire_data s' ! k)) = unat (snd (sp k))"
    have "tire_registered sp s' k" by (simp add: tire_registered_def f sv stt)
    moreover have "\<And>i. i < k \<Longrightarrow> tire_registered sp s' i"
      using dn by (simp add: tire_registered_def tdi)
    ultimately show ?thesis unfolding st' using sv stt by (auto simp: less_Suc_eq)
  qed
qed

lemma Initialize_tire_proxies:
  assumes inv: "case st of (s, sv, stt) \<Rightarrow> length (m_tire_data s) = n0
                  \<and> length (bodylist (m_system s)) = L0 + (\<Sum>j<k. num_elements s j)
                  \<and> (\<forall>i<k. proxies_created s i)
                  \<and> (\<forall>i. k \<le> i \<longrightarrow> i < n0 \<longrightarrow> m_proxies (m_tire_data s ! i) = [])"
    and r: "Initialize_tire sp mp k st = Inr st'"
  shows "case st' of (s, sv, stt) \<Rightarrow> length (m_tire_data s) = n0
                  \<and> length (bodylist (m_system s)) = L0 + (\<Sum>j<Suc k. num_elements s j)
                  \<and> (\<forall>i<Suc k. proxies_created s i)
                  \<and> (\<forall>i. Suc k \<le> i \<longrightarrow> i < n0 \<longrightarrow> m_proxies (m_tire_data s ! i) = [])"
proof -
  obtain s sv stt where st: "st = (s, sv, stt)" by (cases st) auto
  from inv have len: "length (m_tire_data s) = n0"
    and cnt: "length (bodylist (m_system s)) = L0 + (\<Sum>j<k. num_elements s j)"
    and dn: "\<And>i. i < k \<Longrightarrow> proxies_created s i"
    and rest: "\<And>i. k \<le> i \<Longrightarrow> i < n0 \<Longrightarrow> m_proxies (m_tire_data s ! i) = []"
    unfolding st by auto
  from r[unfolded st] show ?thesis
  proof (rule Initialize_tire_step)
    fix s' assume st': "st' = (s', sv + fst (sp k), stt + snd (sp k))"
      and kl: "k < length (m_tire_data s)"
      and len': "length (m_tire_data s') = length (m_tire_data s)"
      and ty: "m_type s' = m_type s"
      and tdi: "\<And>i. i \<noteq> k \<Longrightarrow> m_tire_data s' ! i = m_tire_data s ! i"
      and px: "m_proxies (m_tire_data s' ! k) = m_proxies (m_tire_data s ! k) @
           map (\<lambda>iv. \<lparr>m_body = length (bodylist (m_system s)) + iv, m_index = of_nat iv\<rparr>)
             [0 ..< num_elements s' k]"
      and bl: "length (bodylist (m_system s')) = length (bodylist (m_system s)) + num_elements s' k"
      and old: "\<And>a. a < length (bodylist (m_system s)) \<Longrightarrow>
           bodylist (m_system s') ! a = bodylist (m_system s) ! a"
      and idn: "\<And>j. j < num_elements s' k \<Longrightarrow>
           Identifier (bodylist (m_system s') ! (length (bodylist (m_system s)) + j))
             = start_element s' k + of_nat j"
    have pk: "m_proxies (m_tire_data s ! k) = []" using rest[of k] kl len by simp
    have nei: "\<And>i. i \<noteq> k \<Longrightarrow> num_elements s' i = num_elements s i"
      by (simp add: num_elements_def ty tdi split: Type.splits)
    have sei: "\<And>i. i \<noteq> k \<Longrightarrow> start_element s' i = start_element s i"
      by (simp add: start_element_def ty tdi split: Type.splits)
    have crk: "proxies_created s' k"
      unfolding proxies_created_def
    proof (intro conjI exI[of _ "length (bodylist (m_system s))"] allI impI)
      show "length (m_proxies (m_tire_data s' ! k)) = num_elements s' k" by (simp add: px pk)
      show "length (bodylist (m_system s)) + num_elements s' k \<le> length (bodylist (m_system s'))"
        using bl by simp
    next
      fix j assume j: "j < num_elements s' k"
      show "m_proxies (m_tire_data s' ! k) ! j = \<lparr>m_body = length (bodylist (m_system s)) + j, m_index = of_nat j\<rparr>"
        using j by (simp add: px pk)
      show "Identifier (bodylist (m_system s') ! (length (bodylist (m_system s)) + j)) = start_element s' k + of_nat j"
        by (rule idn[OF j])
    qed
    have cri: "\<And>i. i < k \<Longrightarrow> proxies_created s' i"
    proof -
      fix i assume i: "i < k"
      then have ik: "i \<noteq> k" by simp
      from dn[OF i] obtain a where
        l: "length (m_proxies (m_tire_data s ! i)) = num_elements s i" and
        a: "a + num_elements s i \<le> length (bodylist (m_system s))" and
        p: "\<And>j. j < num_elements s i \<Longrightarrow> m_proxies (m_tire_data s ! i) ! j = \<lparr>m_body = a + j, m_index = of_nat j\<rparr>
                   \<and> Identifier (bodylist (m_system s) ! (a + j)) = start_element s i + of_nat j"
        unfolding proxies_created_def by blast
      show "proxies_created s' i"
        unfolding proxies_created_def nei[OF ik] sei[OF ik] tdi[OF ik]
      proof (intro conjI exI[of _ a] allI impI)
        show "length (m_proxies (m_tire_data s ! i)) = num_elements s i" by (rule l)
        show "a + num_elements s i \<le> length (bodylist (m_system s'))" using a bl by simp
      next
        fix j assume j: "j < num_elements s i"
        show "m_proxies (m_tire_data s ! i) ! j = \<lparr>m_body = a + j, m_index = of_nat j\<rparr>" using p[OF j] by simp
        have "a + j < length (bodylist (m_system s))" using a j by simp
        from old[OF this] p[OF j]
        show "Identifier (bodylist (m_system s') ! (a + j)) = start_element s i + of_nat j" by simp
      qed
    qed
    have rest': "\<And>i. Suc k \<le> i \<Longrightarrow> i < n0 \<Longrightarrow> m_proxies (m_tire_data s' ! i) = []"
      using rest by (simp add: tdi)
    have "(\<Sum>j<k. num_elements s' j) = (\<Sum>j<k. num_elements s j)"
      by (rule sum.cong) (simp_all add: nei)
    then have cnt': "length (bodylist (m_system s')) = L0 + (\<Sum>j<Suc k. num_elements s' j)"
      using bl cnt by simp
    show ?thesis
      unfolding st' using len len' crk cri rest' cnt' by (auto simp: less_Suc_eq)
  qed
qed

lemma Construct_frame:
  "m_tire_data (Construct env s) = m_tire_data s"
  "m_num_tires (Construct env s) = m_num_tires s"
  "m_type (Construct env s) = m_type s"
  by (simp_all add: Construct_def Let_def split: prod.splits)

lemma Initialize_loop:
  assumes "Initialize env sp mp s0 = Inr (s, d)"
  obtains sys sv stt where
    "foldE (Initialize_tire sp mp) [0 ..< nat (m_num_tires s0)]
        ((Construct env s0)\<lparr>m_system := sys\<rparr>, 0, 0) = Inr (s, sv, stt)"
    and "bodylist sys = bodylist (m_system (Construct env s0))"
    and "d = (m_init_height (Construct env s0), m_hdimX (Construct env s0) + 2 * m_hlenX (Construct env s0))"
  using assms
  by (auto simp: Initialize_def Let_def Construct_frame bindE_Inr_iff split: if_splits)

lemma Initialize_registered:
  assumes "Initialize env sp mp s0 = Inr (s, d)" and "i < nat (m_num_tires s0)"
  shows "tire_registered sp s i"
proof -
  from assms(1) obtain sys sv stt where
    f: "foldE (Initialize_tire sp mp) [0 ..< nat (m_num_tires s0)]
        ((Construct env s0)\<lparr>m_system := sys\<rparr>, 0, 0) = Inr (s, sv, stt)"
    by (rule Initialize_loop)
  let ?P = "\<lambda>k st. case st of (s, sv, stt) \<Rightarrow> (\<forall>i<k. tire_registered sp s i)
                  \<and> sv = (\<Sum>j<k. fst (sp j)) \<and> stt = (\<Sum>j<k. snd (sp j))"
  have "?P (nat (m_num_tires s0)) (s, sv, stt)"
  proof (rule foldE_upt_invariant[OF f, where P = ?P])
    show "0 \<le> nat (m_num_tires s0)" by simp
    show "?P 0 ((Construct env s0)\<lparr>m_system := sys\<rparr>, 0, 0)" by simp
    show "\<And>j a a'. j < nat (m_num_tires s0) \<Longrightarrow> ?P j a \<Longrightarrow> Initialize_tire sp mp j a = Inr a' \<Longrightarrow> ?P (Suc j) a'"
      by (rule Initialize_tire_registered)
  qed
  then show ?thesis using assms(2) by simp
qed

lemma Initialize_proxies:
  assumes "Initialize env sp mp s0 = Inr (s, d)"
    and "\<forall>td \<in> set (m_tire_data s0). m_proxies td = []"
  shows "\<forall>i < nat (m_num_tires s0). proxies_created s i"
    and "length (bodylist (m_system s)) = length (bodylist (m_system (Construct env s0)))
           + (\<Sum>j<nat (m_num_tires s0). num_elements s j)"
proof -
  from assms(1) obtain sys sv stt where
    f: "foldE (Initialize_tire sp mp) [0 ..< nat (m_num_tires s0)]
        ((Construct env s0)\<lparr>m_system := sys\<rparr>, 0, 0) = Inr (s, sv, stt)"
    and b: "bodylist sys = bodylist (m_system (Construct env s0))"
    by (rule Initialize_loop)
  let ?P = "\<lambda>k st. case st of (s, sv, stt) \<Rightarrow> length (m_tire_data s) = length (m_tire_data s0)
                  \<and> length (bodylist (m_system s)) = length (bodylist (m_system (Construct env s0))) + (\<Sum>j<k. num_elements s j)
                  \<and> (\<forall>i<k. proxies_created s i)
                  \<and> (\<forall>i. k \<le> i \<longrightarrow> i < length (m_tire_data s0) \<longrightarrow> m_proxies (m_tire_data s ! i) = [])"
  have "?P (nat (m_num_tires s0)) (s, sv, stt)"
  proof (rule foldE_upt_invariant[OF f, where P = ?P])
    show "0 \<le> nat (m_num_tires s0)" by simp
    show "?P 0 ((Construct env s0)\<lparr>m_system := sys\<rparr>, 0, 0)"
      using assms(2) b by (simp add: Construct_frame)
    show "\<And>j a a'. j < nat (m_num_tires s0) \<Longrightarrow> ?P j a \<Longrightarrow> Initialize_tire sp mp j a = Inr a' \<Longrightarrow> ?P (Suc j) a'"
      by (rule Initialize_tire_proxies)
  qed
  then show "\<forall>i < nat (m_num_tires s0). proxies_created s i"
    and "length (bodylist (m_system s)) = length (bodylist (m_system (Construct env s0)))
           + (\<Sum>j<nat (m_num_tires s0). num_elements s j)"
    by simp_all
qed

lemma Initialize_type:
  assumes "Initialize env sp mp s0 = Inr (s, d)"
  shows "m_type s = m_type s0"
proof -
  from assms(1) obtain sys sv stt where
    f: "foldE (Initialize_tire sp mp) [0 ..< nat (m_num_tires s0)]
        ((Construct env s0)\<lparr>m_system := sys\<rparr>, 0, 0) = Inr (s, sv, stt)"
    by (rule Initialize_loop)
  have "case (s, sv, stt) of (s, sv, stt) \<Rightarrow> m_type s = m_type s0"
  proof (rule foldE_upt_invariant[OF f, where P = "\<lambda>k st. case st of (s, sv, stt) \<Rightarrow> m_type s = m_type s0"])
    show "0 \<le> nat (m_num_tires s0)" by simp
    show "case ((Construct env s0)\<lparr>m_system := sys\<rparr>, 0, 0) of (s, sv, stt) \<Rightarrow> m_type s = m_type s0"
      by (simp add: Construct_frame)
    fix j a a' assume a: "case a of (s, sv, stt) \<Rightarrow> m_type s = m_type s0"
      and r: "Initialize_tire sp mp j a = Inr a'"
    obtain s1 sv1 stt1 where a1: "a = (s1, sv1, stt1)" by (cases a) auto
    from r[unfolded a1] show "case a' of (s, sv, stt) \<Rightarrow> m_type s = m_type s0"
      by (rule Initialize_tire_step) (use a a1 in simp)
  qed
  then show ?thesis by simp
qed

lemma unat_sum_no_overflow:
  fixes w :: "nat \<Rightarrow> 32 word"
  assumes "(\<Sum>j<n. unat (w j)) < 2 ^ 32"
  shows "unat (\<Sum>j<n. w j) = (\<Sum>j<n. unat (w j))"
  using assms
proof (induction n)
  case 0
  then show ?case by simp
next
  case (Suc n)
  then have lt: "(\<Sum>j<n. unat (w j)) + unat (w n) < 2 ^ 32" by simp
  then have "(\<Sum>j<n. unat (w j)) < 2 ^ 32" by simp
  from Suc.IH[OF this] have ih: "unat (\<Sum>j<n. w j) = (\<Sum>j<n. unat (w j))" .
  have "unat ((\<Sum>j<n. w j) + w n) = unat (\<Sum>j<n. w j) + unat (w n)"
    using lt ih by (simp add: unat_add_lem[THEN iffD1])
  then show ?case using ih by simp
qed


lemma foldE_append: "foldE f (xs @ ys) a = bindE (foldE f xs a) (foldE f ys)"
  by (induction xs arbitrary: a) (simp_all add: bindE_def split: sum.splits)

lemma foldE_snoc: "foldE f (xs @ [x]) a = bindE (foldE f xs a) (f x)"
  by (simp add: foldE_append bindE_def split: sum.splits)

text \<open>
  \<^bold>\<open>C9.\<close> After \<open>Initialize\<close> on a node whose tires have no proxies yet, tire \<open>i\<close> has
  as many proxies as it has vertices (rigid terrain) or triangles (granular terrain),
  the proxies have bodies of their own, the body of the proxy of element \<open>j\<close> has
  the identifier \<open>start + j\<close> for the starting offset of the tire, and the system has
  gained exactly one body for each such element of each tire.
\<close>

theorem Initialize_one_proxy_per_element:
  assumes "Initialize env surf_props mat_props s0 = Inr (s, d)"
    and "\<forall>td \<in> set (m_tire_data s0). m_proxies td = []"
    and "i < nat (m_num_tires s0)"
  shows "length (m_proxies (m_tire_data s ! i))
           = (case m_type s0 of RIGID \<Rightarrow> unat (fst (surf_props i))
                              | GRANULAR \<Rightarrow> unat (snd (surf_props i)))
       \<and> distinct (map m_body (m_proxies (m_tire_data s ! i)))
       \<and> (\<forall>j < length (m_proxies (m_tire_data s ! i)).
             m_body (m_proxies (m_tire_data s ! i) ! j) < length (bodylist (m_system s))
           \<and> Identifier (bodylist (m_system s) ! m_body (m_proxies (m_tire_data s ! i) ! j))
               = (case m_type s0 of RIGID \<Rightarrow> m_start_vert (m_tire_data s ! i)
                                  | GRANULAR \<Rightarrow> m_start_tri (m_tire_data s ! i)) + of_nat j)
       \<and> length (bodylist (m_system s))
           = length (bodylist (m_system (Construct env s0)))
             + (\<Sum>k<nat (m_num_tires s0).
                  case m_type s0 of RIGID \<Rightarrow> unat (fst (surf_props k))
                                  | GRANULAR \<Rightarrow> unat (snd (surf_props k)))"
proof -
  let ?N = "nat (m_num_tires s0)"
  let ?ps = "m_proxies (m_tire_data s ! i)"
  have ty: "m_type s = m_type s0" by (rule Initialize_type[OF assms(1)])
  have reg: "\<And>k. k < ?N \<Longrightarrow> tire_registered surf_props s k"
    by (rule Initialize_registered[OF assms(1)])
  have ne: "\<And>k. k < ?N \<Longrightarrow> num_elements s k =
      (case m_type s0 of RIGID \<Rightarrow> unat (fst (surf_props k)) | GRANULAR \<Rightarrow> unat (snd (surf_props k)))"
    using reg by (simp add: num_elements_def ty tire_registered_def Let_def split: Type.splits)
  have se: "start_element s i = (case m_type s0 of RIGID \<Rightarrow> m_start_vert (m_tire_data s ! i)
                                  | GRANULAR \<Rightarrow> m_start_tri (m_tire_data s ! i))"
    by (simp add: start_element_def ty)
  from Initialize_proxies(1)[OF assms(1,2)] assms(3) have "proxies_created s i" by simp
  then obtain a where
    l: "length ?ps = num_elements s i" and
    a: "a + num_elements s i \<le> length (bodylist (m_system s))" and
    p: "\<And>j. j < num_elements s i \<Longrightarrow> ?ps ! j = \<lparr>m_body = a + j, m_index = of_nat j\<rparr>
               \<and> Identifier (bodylist (m_system s) ! (a + j)) = start_element s i + of_nat j"
    unfolding proxies_created_def by blast
  have 1: "length ?ps = (case m_type s0 of RIGID \<Rightarrow> unat (fst (surf_props i))
                              | GRANULAR \<Rightarrow> unat (snd (surf_props i)))"
    using l ne[OF assms(3)] by simp
  have mb: "map m_body ?ps = map (\<lambda>j. a + j) [0 ..< num_elements s i]"
    using l p by (auto simp: list_eq_iff_nth_eq)
  have 2: "distinct (map m_body ?ps)"
    unfolding mb by (simp add: distinct_map inj_on_def)
  have 3: "\<forall>j < length ?ps.
             m_body (?ps ! j) < length (bodylist (m_system s))
           \<and> Identifier (bodylist (m_system s) ! m_body (?ps ! j))
               = (case m_type s0 of RIGID \<Rightarrow> m_start_vert (m_tire_data s ! i)
                                  | GRANULAR \<Rightarrow> m_start_tri (m_tire_data s ! i)) + of_nat j"
    using l p a se by auto
  have "(\<Sum>k<?N. num_elements s k) = (\<Sum>k<?N. case m_type s0 of RIGID \<Rightarrow> unat (fst (surf_props k))
                                  | GRANULAR \<Rightarrow> unat (snd (surf_props k)))"
    by (rule sum.cong) (simp_all add: ne)
  with Initialize_proxies(2)[OF assms(1,2)]
  have 4: "length (bodylist (m_system s))
           = length (bodylist (m_system (Construct env s0)))
             + (\<Sum>k<?N. case m_type s0 of RIGID \<Rightarrow> unat (fst (surf_props k))
                                  | GRANULAR \<Rightarrow> unat (snd (surf_props k)))"
    by simp
  from 1 2 3 4 show ?thesis by blast
qed


subsection \<open>The first step\<close>

lemma mapE_const:
  "(\<And>i. i \<in> set xs \<Longrightarrow> f i = Inr c) \<Longrightarrow> mapE f xs = Inr (replicate (length xs) c)"
  by (induction xs) (simp_all add: bindE_def)

text \<open>
  \<^bold>\<open>C1.\<close> A call of \<open>Synchronize\<close> with step number 0 that returns has sent to every
  tire an empty index vector and an empty force vector, whatever the environment
  says of the contact forces on the proxies.
\<close>

theorem Synchronize_step0_sends_nothing:
  assumes "Synchronize env 0 vert_msg tri_msg s = Inr (s', sent)"
  shows "sent = replicate (nat (m_num_tires s)) ([], [])"
proof -
  have "mapE (send_tire env 0 s'') [0 ..< nat (m_num_tires s)]
          = Inr (replicate (nat (m_num_tires s)) ([], []))" for s''
    using mapE_const[of "[0 ..< nat (m_num_tires s)]" "send_tire env 0 s''" "([], [])"]
    by (simp add: send_tire_def)
  with assms show ?thesis
    by (auto simp: Synchronize_def bindE_Inr_iff)
qed

subsection \<open>Forces on node proxies\<close>

lemma ForcesNodeProxies_loop:
  assumes "n \<le> length (m_proxies (m_tire_data s ! which))"
  shows "foldE (ForcesNodeProxies_step env which s) [0 ..< n] (fs, is) =
     Inr (fs @ concat (map (\<lambda>iv. let f = GetBodyContactForce env (m_system s)
                                         (m_body (m_proxies (m_tire_data s ! which) ! iv))
                               in [vec_x f, vec_y f, vec_z f])
                     (filter (\<lambda>iv. \<not> IsZero env (GetBodyContactForce env (m_system s)
                                         (m_body (m_proxies (m_tire_data s ! which) ! iv))))
                        [0 ..< n])),
          is @ map (\<lambda>iv. m_index (m_proxies (m_tire_data s ! which) ! iv))
                 (filter (\<lambda>iv. \<not> IsZero env (GetBodyContactForce env (m_system s)
                                         (m_body (m_proxies (m_tire_data s ! which) ! iv))))
                    [0 ..< n]))"
  using assms
proof (induction n)
  case 0
  then show ?case by simp
next
  case (Suc n)
  then have n: "n < length (m_proxies (m_tire_data s ! which))" by simp
  with Suc have ih: "foldE (ForcesNodeProxies_step env which s) [0 ..< n] (fs, is) =
     Inr (fs @ concat (map (\<lambda>iv. let f = GetBodyContactForce env (m_system s)
                                         (m_body (m_proxies (m_tire_data s ! which) ! iv))
                               in [vec_x f, vec_y f, vec_z f])
                     (filter (\<lambda>iv. \<not> IsZero env (GetBodyContactForce env (m_system s)
                                         (m_body (m_proxies (m_tire_data s ! which) ! iv))))
                        [0 ..< n])),
          is @ map (\<lambda>iv. m_index (m_proxies (m_tire_data s ! which) ! iv))
                 (filter (\<lambda>iv. \<not> IsZero env (GetBodyContactForce env (m_system s)
                                         (m_body (m_proxies (m_tire_data s ! which) ! iv))))
                    [0 ..< n]))" by simp
  have u: "[0 ..< Suc n] = [0 ..< n] @ [n]" by simp
  show ?case
    unfolding u foldE_snoc ih
    using n by (simp add: bindE_def ForcesNodeProxies_step_def at_nat_def Let_def)
qed

lemma unat_of_nat_32: "iv < 2 ^ 32 \<Longrightarrow> unat (of_nat iv :: 32 word) = iv"
  by (simp add: unat_of_nat)

lemma sint_of_nat_32: "iv < 2 ^ 31 \<Longrightarrow> sint (of_nat iv :: 32 word) = int iv"
  by (simp add: signed_of_nat signed_take_bit_int_eq_self)

lemma sorted_wrt_map_filter_upt:
  assumes "\<And>i j. i < j \<Longrightarrow> j < n \<Longrightarrow> f i < f j"
  shows "sorted_wrt (<) (map f (filter P [0 ..< n]))"
proof -
  have "sorted_wrt (\<lambda>i j. i < j \<and> j < n) [0 ..< n]"
    by (simp add: sorted_wrt_iff_nth_less)
  then have "sorted_wrt (\<lambda>i j. i < j \<and> j < n) (filter P [0 ..< n])"
    by (rule sorted_wrt_filter)
  then have "sorted_wrt (\<lambda>i j. f i < f j) (filter P [0 ..< n])"
    by (rule sorted_wrt_mono_rel[rotated]) (use assms in auto)
  then show ?thesis by (simp add: sorted_wrt_map)
qed

lemma length_concat_triples:
  "length (concat (map (\<lambda>iv. let f = g iv in [vec_x f, vec_y f, vec_z f]) xs)) = 3 * length xs"
  by (induction xs) (simp_all add: Let_def)

lemma ForcesNodeProxies_after_Initialize:
  assumes "Initialize env0 surf_props mat_props s0 = Inr (s, d)"
    and "m_type s0 = RIGID"
    and "\<forall>td \<in> set (m_tire_data s0). m_proxies td = []"
    and "which < nat (m_num_tires s0)"
    and "m_proxies (m_tire_data s' ! which) = m_proxies (m_tire_data s ! which)"
    and "m_num_vert (m_tire_data s' ! which) = m_num_vert (m_tire_data s ! which)"
  shows "\<exists>vert_forces vert_indices.
       ForcesNodeProxies env which s' = Inr (vert_forces, vert_indices)
     \<and> vert_indices = map (\<lambda>iv. m_index (m_proxies (m_tire_data s' ! which) ! iv))
                         (contacting_vertices env s' which)
     \<and> vert_indices = map of_nat (contacting_vertices env s' which)
     \<and> (\<forall>iv < unat (m_num_vert (m_tire_data s ! which)).
           Identifier (bodylist (m_system s) ! m_body (m_proxies (m_tire_data s ! which) ! iv))
             = m_start_vert (m_tire_data s ! which) + of_nat iv)
     \<and> sorted_wrt (<) (map unat vert_indices)
     \<and> (unat (m_num_vert (m_tire_data s ! which)) \<le> 2 ^ 31 \<longrightarrow>
          sorted_wrt (<) (map sint vert_indices))
     \<and> vert_forces = concat (map (\<lambda>iv. let f = GetBodyContactForce env (m_system s')
                                         (m_body (m_proxies (m_tire_data s' ! which) ! iv))
                                    in [vec_x f, vec_y f, vec_z f])
                              (contacting_vertices env s' which))
     \<and> length vert_forces = 3 * length vert_indices"
proof -
  let ?n = "unat (m_num_vert (m_tire_data s ! which))"
  let ?ps = "m_proxies (m_tire_data s ! which)"
  let ?cv = "contacting_vertices env s' which"
  have ty: "m_type s = RIGID" using Initialize_type[OF assms(1)] assms(2) by simp
  have ne: "num_elements s which = ?n" by (simp add: num_elements_def ty)
  have se: "start_element s which = m_start_vert (m_tire_data s ! which)"
    by (simp add: start_element_def ty)
  from Initialize_proxies(1)[OF assms(1,3)] assms(4) have "proxies_created s which" by simp
  then obtain a where
    l: "length ?ps = ?n" and
    p: "\<And>j. j < ?n \<Longrightarrow> ?ps ! j = \<lparr>m_body = a + j, m_index = of_nat j\<rparr>
               \<and> Identifier (bodylist (m_system s) ! (a + j)) = m_start_vert (m_tire_data s ! which) + of_nat j"
    unfolding proxies_created_def ne se by blast
  have cvn: "\<And>iv. iv \<in> set ?cv \<Longrightarrow> iv < ?n"
    by (simp add: contacting_vertices_def assms(6))
  have n32: "?n < 2 ^ 32" using unsigned_less[of "m_num_vert (m_tire_data s ! which)"] by simp
  have le: "unat (m_num_vert (m_tire_data s' ! which)) \<le> length (m_proxies (m_tire_data s' ! which))"
    using l by (simp add: assms(5,6))
  have F: "ForcesNodeProxies env which s' =
      Inr (concat (map (\<lambda>iv. let f = GetBodyContactForce env (m_system s')
                                         (m_body (m_proxies (m_tire_data s' ! which) ! iv))
                                    in [vec_x f, vec_y f, vec_z f]) ?cv),
           map (\<lambda>iv. m_index (m_proxies (m_tire_data s' ! which) ! iv)) ?cv)"
    unfolding ForcesNodeProxies_def ForcesNodeProxies_loop[OF le, of env "[]" "[]"]
    by (simp add: contacting_vertices_def)
  have I: "map (\<lambda>iv. m_index (m_proxies (m_tire_data s' ! which) ! iv)) ?cv = map of_nat ?cv"
    using cvn p by (simp add: assms(5))
  have idn: "\<forall>iv < ?n. Identifier (bodylist (m_system s) ! m_body (?ps ! iv))
             = m_start_vert (m_tire_data s ! which) + of_nat iv"
    using p by simp
  have su: "sorted_wrt (<) (map unat (map (of_nat :: nat \<Rightarrow> 32 word) ?cv))"
    unfolding contacting_vertices_def assms(6) map_map
    by (rule sorted_wrt_map_filter_upt) (use n32 in \<open>simp add: unat_of_nat_32\<close>)
  have ss: "sorted_wrt (<) (map sint (map (of_nat :: nat \<Rightarrow> 32 word) ?cv))" if "?n \<le> 2 ^ 31"
    unfolding contacting_vertices_def assms(6) map_map
    by (rule sorted_wrt_map_filter_upt) (use that in \<open>simp add: sint_of_nat_32\<close>)
  have len: "length (concat (map (\<lambda>iv. let f = GetBodyContactForce env (m_system s')
                                         (m_body (m_proxies (m_tire_data s' ! which) ! iv))
                                    in [vec_x f, vec_y f, vec_z f]) ?cv)) = 3 * length ?cv"
    by (rule length_concat_triples)
  let ?F = "concat (map (\<lambda>iv. let f = GetBodyContactForce env (m_system s')
                                         (m_body (m_proxies (m_tire_data s' ! which) ! iv))
                                    in [vec_x f, vec_y f, vec_z f]) ?cv)"
  let ?I = "map (\<lambda>iv. m_index (m_proxies (m_tire_data s' ! which) ! iv)) ?cv"
  show ?thesis
  proof (intro exI conjI)
    show "ForcesNodeProxies env which s' = Inr (?F, ?I)" by (rule F)
    show "?I = ?I" ..
    show "?I = map of_nat ?cv" by (rule I)
    show "\<forall>iv < ?n. Identifier (bodylist (m_system s) ! m_body (?ps ! iv))
             = m_start_vert (m_tire_data s ! which) + of_nat iv" by (rule idn)
    show "sorted_wrt (<) (map unat ?I)" unfolding I by (rule su)
    show "?n \<le> 2 ^ 31 \<longrightarrow> sorted_wrt (<) (map sint ?I)" unfolding I using ss by blast
    show "?F = ?F" ..
    show "length ?F = 3 * length ?I" using len by simp
  qed
qed

subsection \<open>Face proxies\<close>

lemma SetWvel_loc_zero:
  "rot_dt (SetWvel_loc (ChVector 0 0 0) b) = ChQuaternion 0 0 0 0"
  "pos (SetWvel_loc w b) = pos b" "rot (SetWvel_loc w b) = rot b" "pos_dt (SetWvel_loc w b) = pos_dt b"
  by (simp_all add: SetWvel_loc_def quat_scale_def quat_mult_def)

lemma offset_unat:
  fixes st :: "32 word"
  assumes "3 * (unat st + n) \<le> 2 ^ 32" and "it < n" and "k < 3"
  shows "unat (3 * st + 3 * of_nat it + of_nat k) = 3 * (unat st + it) + k"
proof -
  have b: "3 * (unat st + it) + k < 2 ^ 32" using assms by simp
  have "3 * st + 3 * of_nat it + of_nat k = (of_nat (3 * (unat st + it) + k) :: 32 word)"
    by simp
  then show ?thesis using b by (simp only: unat_of_nat_32)
qed

lemma UpdateFaceProxies_step_eq:
  assumes "it < length (m_triangles (m_tire_data s ! which))"
    and "it < length (m_proxies (m_tire_data s ! which))"
    and "triangle_in_range (m_tire_data s ! which) it"
    and "3 * (unat (m_start_tri (m_tire_data s ! which)) + n) \<le> 2 ^ 32" and "it < n"
    and "3 * (unat (m_start_tri (m_tire_data s ! which)) + n) \<le> length (triangle_rigid (m_system s))"
  shows "UpdateFaceProxies_step which it s =
     (case triangle_states (m_tire_data s ! which) it of (sA, sB, sC) \<Rightarrow>
        let c = vec_div (vs_pos sA + vs_pos sB + vs_pos sC) 3;
            off = 3 * (unat (m_start_tri (m_tire_data s ! which)) + it);
            sys = upd_body (m_body (m_proxies (m_tire_data s ! which) ! it))
                   (\<lambda>b. SetWvel_loc (ChVector 0 0 0)
                          (b\<lparr>pos := c, rot := ChQuaternion 1 0 0 0,
                             pos_dt := vec_div (vs_vel sA + vs_vel sB + vs_vel sC) 3\<rparr>))
                   (m_system s)
        in Inr (s\<lparr>m_system := sys\<lparr>triangle_rigid :=
                  (triangle_rigid sys)[off := vs_pos sA - c, off + 1 := vs_pos sB - c,
                             off + 2 := vs_pos sC - c]\<rparr>\<rparr>))"
proof -
  let ?st = "m_start_tri (m_tire_data s ! which)"
  have o0: "unat (3 * ?st + 3 * of_nat it + 0) = 3 * (unat ?st + it)"
    using offset_unat[OF assms(4,5), of 0] by simp
  have o1: "unat (3 * ?st + 3 * of_nat it + 1) = 3 * (unat ?st + it) + 1"
    using offset_unat[OF assms(4,5), of 1] by simp
  have o2: "unat (3 * ?st + 3 * of_nat it + 2) = 3 * (unat ?st + it) + 2"
    using offset_unat[OF assms(4,5), of 2] by simp
  have lt: "3 * (unat ?st + it) + 2 < length (triangle_rigid (m_system s))"
    using assms(5,6) by simp
  have tl: "length (triangle_rigid (upd_body a f (m_system s))) = length (triangle_rigid (m_system s))" for a f
    by (simp add: upd_body_def)
  show ?thesis
    using assms(1,2,3) lt
    unfolding UpdateFaceProxies_step_def Let_def o0 o1 o2
    by (simp add: triangle_in_range_def triangle_states_def Let_def at_nat_def at_int_def bindE_def
          upd_body_def nat_less_iff)
qed

lemma UpdateFaceProxies_loop:
  fixes s :: TerrainNode and which :: nat
  defines "td \<equiv> m_tire_data s ! which"
  assumes tl: "n \<le> length (m_triangles td)" and pl: "n \<le> length (m_proxies td)"
    and rng: "\<And>it. it < n \<Longrightarrow> triangle_in_range td it"
    and dist: "distinct (map m_body (take n (m_proxies td)))"
    and addr: "\<And>it. it < n \<Longrightarrow> m_body (m_proxies td ! it) < length (bodylist (m_system s))"
    and wrap: "3 * (unat (m_start_tri td) + n) \<le> 2 ^ 32"
    and slots: "3 * (unat (m_start_tri td) + n) \<le> length (triangle_rigid (m_system s))"
  shows "k \<le> n \<Longrightarrow> \<exists>s'. foldE (UpdateFaceProxies_step which) [0 ..< k] s = Inr s'
      \<and> m_tire_data s' = m_tire_data s
      \<and> length (bodylist (m_system s')) = length (bodylist (m_system s))
      \<and> length (triangle_rigid (m_system s')) = length (triangle_rigid (m_system s))
      \<and> (\<forall>it<k. face_proxy_updated td (m_system s') it)"
proof (induction k)
  case 0
  then show ?case by simp
next
  case (Suc k)
  then have kn: "k < n" by simp
  from Suc obtain s1 where
    f: "foldE (UpdateFaceProxies_step which) [0 ..< k] s = Inr s1" and
    t1: "m_tire_data s1 = m_tire_data s" and
    b1: "length (bodylist (m_system s1)) = length (bodylist (m_system s))" and
    r1: "length (triangle_rigid (m_system s1)) = length (triangle_rigid (m_system s))" and
    g1: "\<And>it. it < k \<Longrightarrow> face_proxy_updated td (m_system s1) it"
    by auto
  have td1: "m_tire_data s1 ! which = td" by (simp add: t1 td_def)
  obtain sA sB sC where ts: "triangle_states td k = (sA, sB, sC)" by (cases "triangle_states td k") auto
  define c where "c = vec_div (vs_pos sA + vs_pos sB + vs_pos sC) 3"
  define off where "off = 3 * (unat (m_start_tri td) + k)"
  define a where "a = m_body (m_proxies td ! k)"
  define f' where "f' = (\<lambda>b. SetWvel_loc (ChVector 0 0 0)
                          (b\<lparr>pos := c, rot := ChQuaternion 1 0 0 0,
                             pos_dt := vec_div (vs_vel sA + vs_vel sB + vs_vel sC) 3\<rparr>))"
  define sys where "sys = upd_body a f' (m_system s1)"
  define s2 where "s2 = s1\<lparr>m_system := sys\<lparr>triangle_rigid :=
                  (triangle_rigid sys)[off := vs_pos sA - c, off + 1 := vs_pos sB - c,
                             off + 2 := vs_pos sC - c]\<rparr>\<rparr>"
  have step: "UpdateFaceProxies_step which k s1 = Inr s2"
  proof -
    have "UpdateFaceProxies_step which k s1 =
     (case triangle_states (m_tire_data s1 ! which) k of (sA, sB, sC) \<Rightarrow>
        let c = vec_div (vs_pos sA + vs_pos sB + vs_pos sC) 3;
            off = 3 * (unat (m_start_tri (m_tire_data s1 ! which)) + k);
            sys = upd_body (m_body (m_proxies (m_tire_data s1 ! which) ! k))
                   (\<lambda>b. SetWvel_loc (ChVector 0 0 0)
                          (b\<lparr>pos := c, rot := ChQuaternion 1 0 0 0,
                             pos_dt := vec_div (vs_vel sA + vs_vel sB + vs_vel sC) 3\<rparr>))
                   (m_system s1)
        in Inr (s1\<lparr>m_system := sys\<lparr>triangle_rigid :=
                  (triangle_rigid sys)[off := vs_pos sA - c, off + 1 := vs_pos sB - c,
                             off + 2 := vs_pos sC - c]\<rparr>\<rparr>))"
      by (rule UpdateFaceProxies_step_eq[where n = n])
         (use kn tl pl rng[OF kn] wrap slots in \<open>simp_all add: td1 r1\<close>)
    then show ?thesis
      by (simp add: td1 ts Let_def s2_def sys_def f'_def a_def off_def c_def)
  qed
  have al: "a < length (bodylist (m_system s1))" using addr[OF kn] by (simp add: a_def b1)
  have ol: "off + 2 < length (triangle_rigid (m_system s1))"
    using kn slots by (simp add: off_def r1)
  have bl2: "bodylist (m_system s2) = (bodylist (m_system s1))[a := f' (bodylist (m_system s1) ! a)]"
    by (simp add: s2_def sys_def upd_body_def)
  have tr2: "triangle_rigid (m_system s2) = (triangle_rigid (m_system s1))
        [off := vs_pos sA - c, off + 1 := vs_pos sB - c, off + 2 := vs_pos sC - c]"
    by (simp add: s2_def sys_def upd_body_def)
  have new: "face_proxy_updated td (m_system s2) k"
    unfolding face_proxy_updated_def ts Let_def prod.case off_def[symmetric] c_def[symmetric]
      a_def[symmetric] bl2 tr2
    using al ol by (simp add: f'_def SetWvel_loc_zero)
  have old: "face_proxy_updated td (m_system s2) it" if it: "it < k" for it
  proof -
    have ne: "m_body (m_proxies td ! it) \<noteq> a"
    proof -
      have "it < length (take n (m_proxies td))" "k < length (take n (m_proxies td))" "it \<noteq> k"
        using it kn pl by simp_all
      with dist have "map m_body (take n (m_proxies td)) ! it \<noteq> map m_body (take n (m_proxies td)) ! k"
        by (simp add: nth_eq_iff_index_eq del: nth_map)
      then show ?thesis using it kn pl by (simp add: a_def)
    qed
    have od: "3 * (unat (m_start_tri td) + it) + j \<noteq> off + j'" if "j < 3" "j' < 3" for j j'
      using it that by (simp add: off_def)
    have o: "3 * (unat (m_start_tri td) + it) \<noteq> off" "3 * (unat (m_start_tri td) + it) \<noteq> off + 1"
      "3 * (unat (m_start_tri td) + it) \<noteq> off + 2"
      "3 * (unat (m_start_tri td) + it) + 1 \<noteq> off" "3 * (unat (m_start_tri td) + it) + 1 \<noteq> off + 1"
      "3 * (unat (m_start_tri td) + it) + 1 \<noteq> off + 2"
      "3 * (unat (m_start_tri td) + it) + 2 \<noteq> off" "3 * (unat (m_start_tri td) + it) + 2 \<noteq> off + 1"
      "3 * (unat (m_start_tri td) + it) + 2 \<noteq> off + 2"
      using od[of 0 0] od[of 0 1] od[of 0 2] od[of 1 0] od[of 1 1] od[of 1 2] od[of 2 0] od[of 2 1] od[of 2 2]
      by simp_all
    have b: "bodylist (m_system s2) ! m_body (m_proxies td ! it) = bodylist (m_system s1) ! m_body (m_proxies td ! it)"
      using ne by (simp add: bl2)
    have t: "triangle_rigid (m_system s2) ! (3 * (unat (m_start_tri td) + it)) = triangle_rigid (m_system s1) ! (3 * (unat (m_start_tri td) + it))"
      "triangle_rigid (m_system s2) ! (3 * (unat (m_start_tri td) + it) + 1) = triangle_rigid (m_system s1) ! (3 * (unat (m_start_tri td) + it) + 1)"
      "triangle_rigid (m_system s2) ! (3 * (unat (m_start_tri td) + it) + 2) = triangle_rigid (m_system s1) ! (3 * (unat (m_start_tri td) + it) + 2)"
      unfolding tr2 using o by (simp_all del: One_nat_def)
    from g1[OF it] show ?thesis
      unfolding face_proxy_updated_def Let_def b t .
  qed
  have u: "[0 ..< Suc k] = [0 ..< k] @ [k]" by simp
  have "foldE (UpdateFaceProxies_step which) [0 ..< Suc k] s = Inr s2"
    unfolding u foldE_snoc f by (simp add: bindE_def step)
  moreover have "m_tire_data s2 = m_tire_data s" by (simp add: s2_def t1)
  moreover have "length (bodylist (m_system s2)) = length (bodylist (m_system s))"
    by (simp add: bl2 b1)
  moreover have "length (triangle_rigid (m_system s2)) = length (triangle_rigid (m_system s))"
    by (simp add: tr2 r1)
  moreover have "\<forall>it<Suc k. face_proxy_updated td (m_system s2) it"
    using new old by (auto simp: less_Suc_eq)
  ultimately show ?case by blast
qed

text \<open>
  \<^bold>\<open>C8.\<close> For a tire whose triangles refer to existing vertices, whose proxies have
  bodies of their own in the system, and whose shape slots \<open>3 (m_start_tri + it) + k\<close>
  exist, \<open>UpdateFaceProxies\<close> returns, and then for every triangle of the tire the
  body of the face proxy is at the mean of the three vertex positions, its
  orientation is the identity, its linear velocity is the mean of the three vertex
  velocities, its angular velocity (the quaternion rate) is zero, and the three slots
  of its contact shape hold the vertex positions minus the centroid.
\<close>

theorem UpdateFaceProxies_reconstructs:
  assumes "unat (m_num_tri (m_tire_data s ! which)) \<le> length (m_triangles (m_tire_data s ! which))"
    and "unat (m_num_tri (m_tire_data s ! which)) \<le> length (m_proxies (m_tire_data s ! which))"
    and "\<forall>it < unat (m_num_tri (m_tire_data s ! which)). triangle_in_range (m_tire_data s ! which) it"
    and "distinct (map m_body (take (unat (m_num_tri (m_tire_data s ! which)))
                                 (m_proxies (m_tire_data s ! which))))"
    and "\<forall>it < unat (m_num_tri (m_tire_data s ! which)).
           m_body (m_proxies (m_tire_data s ! which) ! it) < length (bodylist (m_system s))"
    and "3 * (unat (m_start_tri (m_tire_data s ! which)) + unat (m_num_tri (m_tire_data s ! which)))
           \<le> 2 ^ 32"
    and "3 * (unat (m_start_tri (m_tire_data s ! which)) + unat (m_num_tri (m_tire_data s ! which)))
           \<le> length (triangle_rigid (m_system s))"
  shows "\<exists>s'. UpdateFaceProxies which s = Inr s'
     \<and> m_tire_data s' = m_tire_data s
     \<and> (\<forall>it < unat (m_num_tri (m_tire_data s ! which)).
           face_proxy_updated (m_tire_data s ! which) (m_system s') it)"
proof -
  let ?n = "unat (m_num_tri (m_tire_data s ! which))"
  have "\<exists>s'. foldE (UpdateFaceProxies_step which) [0 ..< ?n] s = Inr s'
      \<and> m_tire_data s' = m_tire_data s
      \<and> length (bodylist (m_system s')) = length (bodylist (m_system s))
      \<and> length (triangle_rigid (m_system s')) = length (triangle_rigid (m_system s))
      \<and> (\<forall>it< ?n. face_proxy_updated (m_tire_data s ! which) (m_system s') it)"
    by (rule UpdateFaceProxies_loop[where n = ?n]) (use assms in simp_all)
  then show ?thesis unfolding UpdateFaceProxies_def by blast
qed


subsection \<open>Forces on face proxies\<close>

lemma map_fst_increment:
  "map fst (map (\<lambda>(k', v). if k' = k then (k', v + f) else (k', v)) m) = map fst m"
  by (induction m) auto

lemma map_accumulate_map_fst:
  "map fst (map_accumulate k f m) = (if k \<in> fst ` set m then map fst m else map fst m @ [k])"
  unfolding map_accumulate_def by (simp only: map_fst_increment if_distrib[of "map fst"] map_append list.map fst_conv)

lemma map_accumulate_keys:
  "fst ` set (map_accumulate k f m) = insert k (fst ` set m)"
proof -
  have "fst ` set (map_accumulate k f m) = set (map fst (map_accumulate k f m))" by simp
  also have "\<dots> = insert k (fst ` set m)"
    unfolding map_accumulate_map_fst by auto
  finally show ?thesis .
qed

lemma map_accumulate_distinct:
  "distinct (map fst m) \<Longrightarrow> distinct (map fst (map_accumulate k f m))"
  unfolding map_accumulate_map_fst by simp

lemma map_of_map_upd:
  "map_of (map (\<lambda>(k', v). if k' = k then (k', v + f) else (k', v)) m) v =
     (if v = k then map_option (\<lambda>x. x + f) (map_of m v) else map_of m v)"
  by (induction m) auto

lemma force_at_map_accumulate:
  "force_at (map_accumulate k f m) v = force_at m v + (if k = v then f else 0)"
proof (cases "k \<in> fst ` set m")
  case True
  then have "map_of m k \<noteq> None" by (simp add: map_of_eq_None_iff)
  then obtain x where "map_of m k = Some x" by blast
  with True show ?thesis
    by (cases "v = k") (simp_all add: force_at_def map_accumulate_def map_of_map_upd split: option.splits)
next
  case False
  then have "map_of m k = None" by (simp add: map_of_eq_None_iff)
  with False show ?thesis
    by (cases "v = k") (simp_all add: force_at_def map_accumulate_def map_add_def split: option.splits)
qed

lemma ForcesFaceProxies_step_eq:
  assumes "it < length (m_triangles (m_tire_data s ! which))"
    and "it < length (m_proxies (m_tire_data s ! which))"
  shows "ForcesFaceProxies_step env which s it m =
     Inr (let tri = m_triangles (m_tire_data s ! which) ! it;
              rforce = GetBodyContactForce env (m_system s) (m_body (m_proxies (m_tire_data s ! which) ! it));
              force = ChVector (vec_x rforce / 3) (vec_y rforce / 3) (vec_z rforce / 3)
          in if IsZero env rforce then m
             else map_accumulate (v3 tri) force (map_accumulate (v2 tri) force
                    (map_accumulate (v1 tri) force m)))"
  using assms by (simp add: ForcesFaceProxies_step_def Let_def at_nat_def bindE_def)

lemma ForcesFaceProxies_loop:
  assumes tl: "n \<le> length (m_triangles (m_tire_data s ! which))"
    and pl: "n \<le> length (m_proxies (m_tire_data s ! which))"
  shows "k \<le> n \<Longrightarrow> \<exists>m. foldE (ForcesFaceProxies_step env which s) [0 ..< k] [] = Inr m
     \<and> distinct (map fst m)
     \<and> fst ` set m = {v. \<exists>it<k.
           \<not> IsZero env (GetBodyContactForce env (m_system s) (m_body (m_proxies (m_tire_data s ! which) ! it)))
         \<and> v \<in> {v1 (m_triangles (m_tire_data s ! which) ! it), v2 (m_triangles (m_tire_data s ! which) ! it),
                 v3 (m_triangles (m_tire_data s ! which) ! it)}}
     \<and> (\<forall>v. force_at m v = (\<Sum>it\<leftarrow>[0 ..< k]. vertex_share env s which it v))"
proof (induction k)
  case 0
  show ?case by (simp add: force_at_def)
next
  case (Suc k)
  then have kn: "k < n" by simp
  let ?nz = "\<lambda>it. \<not> IsZero env (GetBodyContactForce env (m_system s) (m_body (m_proxies (m_tire_data s ! which) ! it)))"
  let ?tri = "\<lambda>it. m_triangles (m_tire_data s ! which) ! it"
  from Suc obtain m where
    f: "foldE (ForcesFaceProxies_step env which s) [0 ..< k] [] = Inr m" and
    d: "distinct (map fst m)" and
    ks: "fst ` set m = {v. \<exists>it<k. ?nz it \<and> v \<in> {v1 (?tri it), v2 (?tri it), v3 (?tri it)}}" and
    fa: "\<And>v. force_at m v = (\<Sum>it\<leftarrow>[0 ..< k]. vertex_share env s which it v)"
    by auto
  define rforce where "rforce = GetBodyContactForce env (m_system s) (m_body (m_proxies (m_tire_data s ! which) ! k))"
  define force where "force = ChVector (vec_x rforce / 3) (vec_y rforce / 3) (vec_z rforce / 3)"
  define m' where "m' = (if IsZero env rforce then m
             else map_accumulate (v3 (?tri k)) force (map_accumulate (v2 (?tri k)) force
                    (map_accumulate (v1 (?tri k)) force m)))"
  have step: "ForcesFaceProxies_step env which s k m = Inr m'"
    using kn tl pl by (simp add: ForcesFaceProxies_step_eq Let_def m'_def force_def rforce_def)
  have d': "distinct (map fst m')"
    using d by (simp add: m'_def map_accumulate_distinct)
  have ks': "fst ` set m' = fst ` set m \<union> (if ?nz k then {v1 (?tri k), v2 (?tri k), v3 (?tri k)} else {})"
    by (auto simp: m'_def map_accumulate_keys rforce_def)
  have fa': "force_at m' v = force_at m v + vertex_share env s which k v" for v
    by (simp add: m'_def force_at_map_accumulate vertex_share_def Let_def rforce_def[symmetric]
          force_def[symmetric] add.assoc)
  have u: "[0 ..< Suc k] = [0 ..< k] @ [k]" by simp
  have 1: "foldE (ForcesFaceProxies_step env which s) [0 ..< Suc k] [] = Inr m'"
    unfolding u foldE_snoc f by (simp add: bindE_def step)
  have 3: "fst ` set m' = {v. \<exists>it<Suc k. ?nz it \<and> v \<in> {v1 (?tri it), v2 (?tri it), v3 (?tri it)}}"
    unfolding ks' ks by (auto simp: less_Suc_eq)
  have 4: "\<forall>v. force_at m' v = (\<Sum>it\<leftarrow>[0 ..< Suc k]. vertex_share env s which it v)"
    by (simp add: fa' fa)
  from 1 d' 3 4 show ?case by blast
qed

lemma concat_triples_nth:
  assumes "k < length xs"
  shows "concat (map (\<lambda>kv. [a kv, b kv, c kv]) xs) ! (3 * k) = a (xs ! k)"
    and "concat (map (\<lambda>kv. [a kv, b kv, c kv]) xs) ! (3 * k + 1) = b (xs ! k)"
    and "concat (map (\<lambda>kv. [a kv, b kv, c kv]) xs) ! (3 * k + 2) = c (xs ! k)"
  using assms
proof (induction xs arbitrary: k)
  case Nil
  { case 1 then show ?case by simp }
  { case 2 then show ?case by simp }
  { case 3 then show ?case by simp }
next
  case (Cons x xs)
  { case 1 then show ?case using Cons(1)[of "k - 1"] by (cases k) simp_all }
  { case 2 then show ?case using Cons(2)[of "k - 1"] by (cases k) simp_all }
  { case 3 then show ?case using Cons(3)[of "k - 1"] by (cases k) (simp_all add: numeral_2_eq_2) }
qed

lemma length_concat_triples2:
  "length (concat (map (\<lambda>kv. [a kv, b kv, c kv]) xs)) = 3 * length xs"
  by (induction xs) simp_all

text \<open>
  \<^bold>\<open>C3.\<close> \<open>ForcesFaceProxies\<close>, for any order of traversal of the map that lists its
  entries once: it returns; the indices it reports are distinct and are the corners
  of the triangles whose proxy carries a force that is not zero; the force vector has
  three entries for each index; and the force reported for a vertex is the sum, over
  the triangles of the tire, of a third of the force of the triangle for each of its
  corners that is the vertex, a triangle with zero force giving nothing.
\<close>

theorem ForcesFaceProxies_distributes:
  assumes "unat (m_num_tri (m_tire_data s ! which)) \<le> length (m_triangles (m_tire_data s ! which))"
    and "unat (m_num_tri (m_tire_data s ! which)) \<le> length (m_proxies (m_tire_data s ! which))"
    and "\<forall>m. mset (unordered_order env m) = mset m"
  shows "\<exists>vert_forces vert_indices.
       ForcesFaceProxies env which s = Inr (vert_forces, vert_indices)
     \<and> distinct vert_indices
     \<and> set vert_indices = {v. \<exists>it < unat (m_num_tri (m_tire_data s ! which)).
           \<not> IsZero env (GetBodyContactForce env (m_system s)
                            (m_body (m_proxies (m_tire_data s ! which) ! it)))
         \<and> v \<in> {v1 (m_triangles (m_tire_data s ! which) ! it),
                 v2 (m_triangles (m_tire_data s ! which) ! it),
                 v3 (m_triangles (m_tire_data s ! which) ! it)}}
     \<and> length vert_forces = 3 * length vert_indices
     \<and> (\<forall>k < length vert_indices.
           ChVector (vert_forces ! (3 * k)) (vert_forces ! (3 * k + 1)) (vert_forces ! (3 * k + 2))
             = (\<Sum>it\<leftarrow>[0 ..< unat (m_num_tri (m_tire_data s ! which))].
                  vertex_share env s which it (vert_indices ! k)))"
proof -
  let ?n = "unat (m_num_tri (m_tire_data s ! which))"
  from ForcesFaceProxies_loop[OF assms(1,2), of ?n env] obtain m where
    f: "foldE (ForcesFaceProxies_step env which s) [0 ..< ?n] [] = Inr m" and
    d: "distinct (map fst m)" and
    ks: "fst ` set m = {v. \<exists>it < ?n.
           \<not> IsZero env (GetBodyContactForce env (m_system s)
                            (m_body (m_proxies (m_tire_data s ! which) ! it)))
         \<and> v \<in> {v1 (m_triangles (m_tire_data s ! which) ! it),
                 v2 (m_triangles (m_tire_data s ! which) ! it),
                 v3 (m_triangles (m_tire_data s ! which) ! it)}}" and
    fa: "\<And>v. force_at m v = (\<Sum>it\<leftarrow>[0 ..< ?n]. vertex_share env s which it v)"
    by auto
  let ?o = "unordered_order env m"
  let ?F = "concat (map (\<lambda>kv. [vec_x (snd kv), vec_y (snd kv), vec_z (snd kv)]) ?o)"
  let ?I = "map fst ?o"
  have ms: "mset ?o = mset m" using assms(3) by simp
  have so: "set ?o = set m" using ms by (rule mset_eq_setD)
  have "mset (map fst ?o) = mset (map fst m)" using ms by simp
  then have do: "distinct (map fst ?o)" using d mset_eq_imp_distinct_iff by blast
  have R: "ForcesFaceProxies env which s = Inr (?F, ?I)"
    by (simp add: ForcesFaceProxies_def f bindE_def)
  have S: "set ?I = fst ` set m" using so by simp
  have val: "snd (?o ! k) = force_at m (fst (?o ! k))" if "k < length ?o" for k
  proof -
    have "?o ! k \<in> set m" using that so by (metis nth_mem)
    then have "(fst (?o ! k), snd (?o ! k)) \<in> set m" by simp
    then have "map_of m (fst (?o ! k)) = Some (snd (?o ! k))"
      by (rule map_of_is_SomeI[OF d])
    then show ?thesis by (simp add: force_at_def)
  qed
  show ?thesis
  proof (intro exI conjI allI impI)
    show "ForcesFaceProxies env which s = Inr (?F, ?I)" by (rule R)
    show "distinct ?I" by (rule do)
    show "set ?I = {v. \<exists>it < ?n.
           \<not> IsZero env (GetBodyContactForce env (m_system s)
                            (m_body (m_proxies (m_tire_data s ! which) ! it)))
         \<and> v \<in> {v1 (m_triangles (m_tire_data s ! which) ! it),
                 v2 (m_triangles (m_tire_data s ! which) ! it),
                 v3 (m_triangles (m_tire_data s ! which) ! it)}}"
      unfolding S ks ..
    show "length ?F = 3 * length ?I" by (simp add: length_concat_triples2)
  next
    fix k assume k: "k < length ?I"
    then have k': "k < length ?o" by simp
    have "ChVector (?F ! (3 * k)) (?F ! (3 * k + 1)) (?F ! (3 * k + 2)) = snd (?o ! k)"
      unfolding concat_triples_nth[OF k'] by simp
    also have "\<dots> = (\<Sum>it\<leftarrow>[0 ..< ?n]. vertex_share env s which it (fst (?o ! k)))"
      by (simp add: val[OF k'] fa)
    finally show "ChVector (?F ! (3 * k)) (?F ! (3 * k + 1)) (?F ! (3 * k + 2))
             = (\<Sum>it\<leftarrow>[0 ..< ?n]. vertex_share env s which it (?I ! k))"
      using k' by simp
  qed
qed

subsection \<open>Node proxies within Synchronize\<close>

lemma sint_nonneg_unat:
  fixes w :: "32 word"
  assumes "\<not> sint w < 0"
  shows "unat w < 2 ^ 31"
proof -
  have lt: "sint w < 2 ^ 31" using sint_lt[of w] by simp
  have ge: "0 \<le> sint w" using assms by simp
  have "sint w < 2 ^ 32" using lt by simp
  with ge have "take_bit 32 (sint w) = sint w" by (simp add: take_bit_int_eq_self)
  then have "uint w = sint w" using uint_sint[of w] by simp
  with lt have u: "uint w < 2 ^ 31" by simp
  have "int (unat w) = uint w" by simp
  with u have "int (unat w) < 2 ^ 31" by simp
  then show ?thesis by (simp only: of_nat_less_numeral_power_cancel_iff)
qed

lemma three_iv0: "unat (3 * of_nat 715827883 :: 32 word) = 2147483649"
  by simp

lemma foldE_invariant:
  assumes "foldE f xs a = Inr b" and "P a"
    and "\<And>x a a'. x \<in> set xs \<Longrightarrow> P a \<Longrightarrow> f x a = Inr a' \<Longrightarrow> P a'"
  shows "P b"
  using assms
proof (induction xs arbitrary: a)
  case Nil
  then show ?case by simp
next
  case (Cons x xs)
  from Cons.prems(1) obtain a' where a': "f x a = Inr a'" and r: "foldE f xs a' = Inr b"
    by (auto simp: bindE_Inr_iff)
  have Pa: "P a'" using Cons.prems(3)[OF _ Cons.prems(2) a'] by simp
  show ?case by (rule Cons.IH[OF r Pa]) (use Cons.prems(3) in auto)
qed

lemma foldE_member:
  assumes "foldE f xs a = Inr b" and "x \<in> set xs"
  shows "\<exists>a' b'. f x a' = Inr b'"
  using assms
proof (induction xs arbitrary: a)
  case Nil
  then show ?case by simp
next
  case (Cons y ys)
  from Cons.prems(1) obtain a' where a': "f y a = Inr a'" and r: "foldE f ys a' = Inr b"
    by (auto simp: bindE_Inr_iff)
  show ?case
  proof (cases "x = y")
    case True
    with a' show ?thesis by blast
  next
    case False
    with Cons.prems(2) have "x \<in> set ys" by simp
    from Cons.IH[OF r this] show ?thesis .
  qed
qed

lemma mapE_nth:
  "mapE f xs = Inr ys \<Longrightarrow> length ys = length xs \<and> (\<forall>i<length xs. f (xs ! i) = Inr (ys ! i))"
proof (induction xs arbitrary: ys)
  case Nil
  then show ?case by simp
next
  case (Cons x xs)
  from Cons.prems obtain b bs where b: "f x = Inr b" and bs: "mapE f xs = Inr bs" and ys: "ys = b # bs"
    by (auto simp: bindE_Inr_iff)
  from Cons.IH[OF bs] b show ?case by (auto simp: ys nth_Cons split: nat.splits)
qed

lemma receive_vertex_frame:
  assumes "receive_vertex vd nv iv td = Inr td'"
  shows "td'\<lparr>m_vertex_states := X\<rparr> = td\<lparr>m_vertex_states := X\<rparr>"
    and "unat (3 * of_nat iv :: 32 word) < length vd"
  using assms
  by (auto simp: receive_vertex_def Let_def bindE_Inr_iff at_uint_def at_nat_def split: if_splits)

lemma receive_triangle_frame:
  assumes "receive_triangle tri_data it td = Inr td'"
  shows "td'\<lparr>m_triangles := X\<rparr> = td\<lparr>m_triangles := X\<rparr>"
  using assms
  by (auto simp: receive_triangle_def bindE_Inr_iff split: if_splits)

lemma UpdateNodeProxies_frame:
  assumes "UpdateNodeProxies which s = Inr s'"
  shows "s' = s\<lparr>m_system := m_system s'\<rparr>"
proof -
  have "\<forall>X. s'\<lparr>m_system := X\<rparr> = s\<lparr>m_system := X\<rparr>"
    if "foldE (UpdateNodeProxies_step which) xs s = Inr s'" for xs
    by (rule foldE_invariant[OF that, where P = "\<lambda>a. \<forall>X. a\<lparr>m_system := X\<rparr> = s\<lparr>m_system := X\<rparr>"])
       (auto simp: UpdateNodeProxies_step_def Let_def bindE_Inr_iff)
  then have "s'\<lparr>m_system := m_system s'\<rparr> = s\<lparr>m_system := m_system s'\<rparr>"
    using assms unfolding UpdateNodeProxies_def by blast
  then show ?thesis by simp
qed

lemma UpdateFaceProxies_frame:
  assumes "UpdateFaceProxies which s = Inr s'"
  shows "s' = s\<lparr>m_system := m_system s'\<rparr>"
proof -
  have "\<forall>X. s'\<lparr>m_system := X\<rparr> = s\<lparr>m_system := X\<rparr>"
    if "foldE (UpdateFaceProxies_step which) xs s = Inr s'" for xs
    by (rule foldE_invariant[OF that, where P = "\<lambda>a. \<forall>X. a\<lparr>m_system := X\<rparr> = s\<lparr>m_system := X\<rparr>"])
       (auto simp: UpdateFaceProxies_step_def Let_def bindE_Inr_iff split: if_splits)
  then have "s'\<lparr>m_system := m_system s'\<rparr> = s\<lparr>m_system := m_system s'\<rparr>"
    using assms unfolding UpdateFaceProxies_def by blast
  then show ?thesis by simp
qed

lemma receive_tire_effect:
  assumes "receive_tire vert_msg tri_msg which s = Inr s'"
  shows "which < length (m_tire_data s)"
    and "unat (m_num_vert (m_tire_data s ! which)) < 2 ^ 31"
    and "m_type s' = m_type s"
    and "length (m_tire_data s') = length (m_tire_data s)"
    and "m_proxies (m_tire_data s' ! i) = m_proxies (m_tire_data s ! i)"
    and "m_num_vert (m_tire_data s' ! i) = m_num_vert (m_tire_data s ! i)"
proof -
  let ?td = "m_tire_data s ! which"
  let ?nv = "m_num_vert ?td"
  let ?vd = "vert_msg which"
  from assms have w: "which < length (m_tire_data s)"
    by (auto simp: receive_tire_def split: if_splits)
  from assms w obtain td1 td2 where
    sg: "\<not> sint (2 * 3 * ?nv) < 0" and
    ln: "length ?vd = unat (2 * 3 * ?nv)" and
    f1: "foldE (receive_vertex ?vd ?nv) [0 ..< unat ?nv] ?td = Inr td1" and
    f2: "foldE (receive_triangle (tri_msg which)) [0 ..< unat (m_num_tri ?td)] td1 = Inr td2" and
    u: "(case m_type s of
           RIGID \<Rightarrow> UpdateNodeProxies which (s\<lparr>m_tire_data := (m_tire_data s)[which := td2]\<rparr>)
         | GRANULAR \<Rightarrow> UpdateFaceProxies which (s\<lparr>m_tire_data := (m_tire_data s)[which := td2]\<rparr>))
          = Inr s'"
    by (auto simp: receive_tire_def Let_def bindE_Inr_iff split: if_splits)
  have t1: "\<forall>X. td1\<lparr>m_vertex_states := X\<rparr> = ?td\<lparr>m_vertex_states := X\<rparr>"
    by (rule foldE_invariant[OF f1, where P = "\<lambda>a. \<forall>X. a\<lparr>m_vertex_states := X\<rparr> = ?td\<lparr>m_vertex_states := X\<rparr>"])
       (auto simp: receive_vertex_frame(1))
  have t2: "\<forall>X. td2\<lparr>m_triangles := X\<rparr> = td1\<lparr>m_triangles := X\<rparr>"
    by (rule foldE_invariant[OF f2, where P = "\<lambda>a. \<forall>X. a\<lparr>m_triangles := X\<rparr> = td1\<lparr>m_triangles := X\<rparr>"])
       (auto simp: receive_triangle_frame)
  have p2: "m_proxies td2 = m_proxies ?td" "m_num_vert td2 = m_num_vert ?td"
  proof -
    have a: "m_proxies td2 = m_proxies td1" "m_num_vert td2 = m_num_vert td1"
      using arg_cong[OF t2[rule_format, of "[]"], of m_proxies]
        arg_cong[OF t2[rule_format, of "[]"], of m_num_vert] by simp_all
    have b: "m_proxies td1 = m_proxies ?td" "m_num_vert td1 = m_num_vert ?td"
      using arg_cong[OF t1[rule_format, of "[]"], of m_proxies]
        arg_cong[OF t1[rule_format, of "[]"], of m_num_vert] by simp_all
    show "m_proxies td2 = m_proxies ?td" "m_num_vert td2 = m_num_vert ?td"
      using a b by simp_all
  qed
  have s': "s' = s\<lparr>m_tire_data := (m_tire_data s)[which := td2], m_system := m_system s'\<rparr>"
  proof (cases "m_type s")
    case RIGID
    with u show ?thesis using UpdateNodeProxies_frame by fastforce
  next
    case GRANULAR
    with u show ?thesis using UpdateFaceProxies_frame by fastforce
  qed
  show "which < length (m_tire_data s)" by (rule w)
  show "m_type s' = m_type s" by (subst s') simp
  show "length (m_tire_data s') = length (m_tire_data s)" by (subst s') simp
  have td': "m_tire_data s' = (m_tire_data s)[which := td2]" by (subst s') simp
  show "m_proxies (m_tire_data s' ! i) = m_proxies (m_tire_data s ! i)"
    using w p2 by (cases "i = which") (simp_all add: td')
  show "m_num_vert (m_tire_data s' ! i) = m_num_vert (m_tire_data s ! i)"
    using w p2 by (cases "i = which") (simp_all add: td')
  show "unat ?nv < 2 ^ 31"
  proof (rule ccontr)
    assume "\<not> unat ?nv < 2 ^ 31"
    then have "715827883 \<in> set [0 ..< unat ?nv]" by simp
    from foldE_member[OF f1 this] obtain a' b' where
      "receive_vertex ?vd ?nv 715827883 a' = Inr b'" by blast
    from receive_vertex_frame(2)[OF this]
    have "unat (3 * of_nat 715827883 :: 32 word) < length ?vd" .
    then have "2147483649 < unat (2 * 3 * ?nv)" unfolding three_iv0 ln .
    moreover have "unat (2 * 3 * ?nv) < 2 ^ 31" by (rule sint_nonneg_unat[OF sg])
    ultimately show False by simp
  qed
qed

lemma Synchronize_receive:
  assumes "foldE (receive_tire vert_msg tri_msg) [0 ..< N] s1 = Inr s2"
  shows "m_type s2 = m_type s1"
    and "\<And>i. m_proxies (m_tire_data s2 ! i) = m_proxies (m_tire_data s1 ! i)"
    and "\<And>i. m_num_vert (m_tire_data s2 ! i) = m_num_vert (m_tire_data s1 ! i)"
    and "\<And>w. w < N \<Longrightarrow> unat (m_num_vert (m_tire_data s1 ! w)) < 2 ^ 31"
    and "\<And>w. w < N \<Longrightarrow> w < length (m_tire_data s2)"
proof -
  let ?P = "\<lambda>k a. m_type a = m_type s1
      \<and> length (m_tire_data a) = length (m_tire_data s1)
      \<and> (\<forall>i. m_proxies (m_tire_data a ! i) = m_proxies (m_tire_data s1 ! i)
             \<and> m_num_vert (m_tire_data a ! i) = m_num_vert (m_tire_data s1 ! i))
      \<and> (\<forall>w<k. unat (m_num_vert (m_tire_data s1 ! w)) < 2 ^ 31 \<and> w < length (m_tire_data s1))"
  have "?P N s2"
  proof (rule foldE_upt_invariant[OF assms, where P = ?P])
    show "0 \<le> N" by simp
    show "?P 0 s1" by simp
    fix j a a'
    assume j: "j < N" and P: "?P j a" and r: "receive_tire vert_msg tri_msg j a = Inr a'"
    note e = receive_tire_effect[OF r]
    show "?P (Suc j) a'"
      using P e(1,2,3,4) e(5) e(6) by (auto simp: less_Suc_eq)
  qed
  then show "m_type s2 = m_type s1"
    and "\<And>i. m_proxies (m_tire_data s2 ! i) = m_proxies (m_tire_data s1 ! i)"
    and "\<And>i. m_num_vert (m_tire_data s2 ! i) = m_num_vert (m_tire_data s1 ! i)"
    and "\<And>w. w < N \<Longrightarrow> unat (m_num_vert (m_tire_data s1 ! w)) < 2 ^ 31"
    and "\<And>w. w < N \<Longrightarrow> w < length (m_tire_data s2)"
    by simp_all
qed

text \<open>
  \<^bold>\<open>C10.\<close> On a rigid terrain, for a tire whose proxies are those that \<open>Initialize\<close>
  made, in a call of \<open>Synchronize\<close> with a positive step number that returns: the
  vertex indices sent to the tire are those that \<open>ForcesNodeProxies\<close> reports, the
  stored \<open>m_index\<close> of the proxies that carry a force, which is the loop counter \<open>iv\<close>
  of their creation, while the identifier of the body is \<open>m_start_vert + iv\<close>; the
  indices are strictly increasing as \<^verbatim>\<open>int\<close>; and the force vector holds the three
  components of the force for each reported index, in order. (The receive loop of
  \<open>Synchronize\<close> only passes for a tire of fewer than \<open>2\<^sup>3\<^sup>1\<close> vertices, so the loop
  counter fits an \<^verbatim>\<open>int\<close>.)
\<close>

theorem ForcesNodeProxies_local_indices:
  assumes "Initialize env0 surf_props mat_props s0 = Inr (s, d)"
    and "m_type s0 = RIGID"
    and "\<forall>td \<in> set (m_tire_data s0). m_proxies td = []"
    and "which < nat (m_num_tires s0)"
    and "m_type s1 = RIGID"
    and "which < nat (m_num_tires s1)"
    and "m_proxies (m_tire_data s1 ! which) = m_proxies (m_tire_data s ! which)"
    and "m_num_vert (m_tire_data s1 ! which) = m_num_vert (m_tire_data s ! which)"
    and "0 < step_number"
    and "Synchronize env step_number vert_msg tri_msg s1 = Inr (s', sent)"
  shows "\<exists>vert_forces vert_indices.
       sent ! which = (vert_indices, vert_forces)
     \<and> ForcesNodeProxies env which s' = Inr (vert_forces, vert_indices)
     \<and> vert_indices = map (\<lambda>iv. m_index (m_proxies (m_tire_data s' ! which) ! iv))
                         (contacting_vertices env s' which)
     \<and> vert_indices = map of_nat (contacting_vertices env s' which)
     \<and> (\<forall>iv < unat (m_num_vert (m_tire_data s ! which)).
           Identifier (bodylist (m_system s) ! m_body (m_proxies (m_tire_data s ! which) ! iv))
             = m_start_vert (m_tire_data s ! which) + of_nat iv)
     \<and> sorted_wrt (<) (map sint vert_indices)
     \<and> vert_forces = concat (map (\<lambda>iv. let f = GetBodyContactForce env (m_system s')
                                         (m_body (m_proxies (m_tire_data s' ! which) ! iv))
                                    in [vec_x f, vec_y f, vec_z f])
                              (contacting_vertices env s' which))
     \<and> length vert_forces = 3 * length vert_indices"
proof -
  let ?N = "nat (m_num_tires s1)"
  from assms(10) obtain
    rc: "foldE (receive_tire vert_msg tri_msg) [0 ..< ?N] s1 = Inr s'" and
    sd: "mapE (send_tire env step_number s') [0 ..< ?N] = Inr sent"
    by (auto simp: Synchronize_def bindE_Inr_iff)
  note R = Synchronize_receive[OF rc]
  have ty: "m_type s' = RIGID" using R(1) assms(5) by simp
  have p: "m_proxies (m_tire_data s' ! which) = m_proxies (m_tire_data s ! which)"
    using R(2)[of which] assms(7) by simp
  have v: "m_num_vert (m_tire_data s' ! which) = m_num_vert (m_tire_data s ! which)"
    using R(3)[of which] assms(8) by simp
  have b: "unat (m_num_vert (m_tire_data s ! which)) \<le> 2 ^ 31"
    using R(4)[OF assms(6)] assms(8) by simp
  have wl: "which < length (m_tire_data s')" by (rule R(5)[OF assms(6)])
  from ForcesNodeProxies_after_Initialize[OF assms(1,2,3,4) p v, of env] b
  obtain vert_forces vert_indices where
    F: "ForcesNodeProxies env which s' = Inr (vert_forces, vert_indices)" and
    rest: "vert_indices = map (\<lambda>iv. m_index (m_proxies (m_tire_data s' ! which) ! iv))
                         (contacting_vertices env s' which)"
      "vert_indices = map of_nat (contacting_vertices env s' which)"
      "\<forall>iv < unat (m_num_vert (m_tire_data s ! which)).
           Identifier (bodylist (m_system s) ! m_body (m_proxies (m_tire_data s ! which) ! iv))
             = m_start_vert (m_tire_data s ! which) + of_nat iv"
      "sorted_wrt (<) (map sint vert_indices)"
      "vert_forces = concat (map (\<lambda>iv. let f = GetBodyContactForce env (m_system s')
                                         (m_body (m_proxies (m_tire_data s' ! which) ! iv))
                                    in [vec_x f, vec_y f, vec_z f])
                              (contacting_vertices env s' which))"
      "length vert_forces = 3 * length vert_indices"
    by blast
  from mapE_nth[OF sd] assms(6) have "send_tire env step_number s' which = Inr (sent ! which)"
    by simp
  then have "sent ! which = (vert_indices, vert_forces)"
    using assms(9) wl ty F by (simp add: send_tire_def bindE_def)
  with F rest show ?thesis by blast
qed

subsection \<open>Face proxies after \<open>Initialize\<close>\<close>

text \<open>\<open>UpdateFaceProxies\<close> addresses the triangle of proxy \<open>it\<close> at the slots
  \<open>3 * (m_start_tri + it)\<close> of the collision data, which the source notes is only correct
  when no other triangle shape was added to the system before the proxies. Under that condition,
  and when three times the number of triangles of all tires fits 32 bits, \<open>Initialize\<close> on
  a granular node without proxies leaves every tire in a state where the proxies, their bodies
  and their slots exist.\<close>

lemma create_proxies_triangles:
  assumes w: "which < length (m_tire_data s)"
  shows "length (triangle_rigid (m_system (create_proxies which s)))
     = length (triangle_rigid (m_system s))
       + (case m_type s of RIGID \<Rightarrow> 0 | GRANULAR \<Rightarrow> 3 * unat (m_num_tri (m_tire_data s ! which)))"
  by (cases "m_type s")
     (simp_all add: create_proxies_def CreateNodeProxies_effect(6)[OF w] CreateFaceProxies_effect(6)[OF w])

lemma Initialize_tire_triangles:
  assumes "Initialize_tire sp mp k (s, sv, stt) = Inr (s', sv', stt')"
  shows "length (triangle_rigid (m_system s'))
     = length (triangle_rigid (m_system s))
       + (case m_type s of RIGID \<Rightarrow> 0 | GRANULAR \<Rightarrow> 3 * unat (snd (sp k)))"
    and "m_type s' = m_type s"
proof -
  from assms have kl: "k < length (m_tire_data s)"
    unfolding Initialize_tire_eq by (auto split: if_splits)
  from assms kl obtain td' where
    s': "s' = create_proxies k (s\<lparr>m_tire_data := (m_tire_data s)[k := td']\<rparr>)" and
    nt: "m_num_tri td' = snd (sp k)"
    unfolding Initialize_tire_eq by (auto split: if_splits)
  have kl1: "k < length (m_tire_data (s\<lparr>m_tire_data := (m_tire_data s)[k := td']\<rparr>))"
    using kl by simp
  show "length (triangle_rigid (m_system s'))
     = length (triangle_rigid (m_system s))
       + (case m_type s of RIGID \<Rightarrow> 0 | GRANULAR \<Rightarrow> 3 * unat (snd (sp k)))"
    unfolding s' create_proxies_triangles[OF kl1] using kl nt by (simp split: Type.splits)
  show "m_type s' = m_type s"
    unfolding s' using create_proxies_type[OF kl1] by simp
qed

lemma Initialize_triangle_slots:
  assumes "Initialize env sp mp s0 = Inr (s, d)" and "m_type s0 = GRANULAR"
  shows "length (triangle_rigid (m_system s))
     = length (triangle_rigid (m_system (Construct env s0)))
       + 3 * (\<Sum>j<nat (m_num_tires s0). unat (snd (sp j)))"
proof -
  from assms(1) obtain sys sv stt where
    f: "foldE (Initialize_tire sp mp) [0 ..< nat (m_num_tires s0)]
        ((Construct env s0)\<lparr>m_system := sys\<rparr>, 0, 0) = Inr (s, sv, stt)"
    and t: "triangle_rigid sys = triangle_rigid (m_system (Construct env s0))"
    by (auto simp: Initialize_def Let_def Construct_frame bindE_Inr_iff split: if_splits)
  let ?P = "\<lambda>k st. case st of (s, sv, stt) \<Rightarrow> m_type s = GRANULAR
      \<and> length (triangle_rigid (m_system s))
           = length (triangle_rigid (m_system (Construct env s0))) + 3 * (\<Sum>j<k. unat (snd (sp j)))"
  have "?P (nat (m_num_tires s0)) (s, sv, stt)"
  proof (rule foldE_upt_invariant[OF f, where P = ?P])
    show "0 \<le> nat (m_num_tires s0)" by simp
    show "?P 0 ((Construct env s0)\<lparr>m_system := sys\<rparr>, 0, 0)"
      using assms(2) t by (simp add: Construct_frame)
    fix j a a'
    assume P: "?P j a" and r: "Initialize_tire sp mp j a = Inr a'"
    obtain s1 sv1 stt1 where a: "a = (s1, sv1, stt1)" by (cases a) auto
    obtain s2 sv2 stt2 where a': "a' = (s2, sv2, stt2)" by (cases a') auto
    from Initialize_tire_triangles[OF r[unfolded a a']] P
    show "?P (Suc j) a'" unfolding a a' by simp
  qed
  then show ?thesis by simp
qed

lemma sum_unat_prefix:
  fixes w :: "nat \<Rightarrow> 32 word"
  assumes "i < n"
  shows "(\<Sum>j<i. unat (w j)) + unat (w i) \<le> (\<Sum>j<n. unat (w j))"
proof -
  have "(\<Sum>j<Suc i. unat (w j)) \<le> (\<Sum>j<n. unat (w j))"
    using assms by (intro sum_mono2) auto
  then show ?thesis by simp
qed

lemma Initialize_face_ready:
  assumes "Initialize env sp mp s0 = Inr (s, d)" and "m_type s0 = GRANULAR"
    and "\<forall>td \<in> set (m_tire_data s0). m_proxies td = []"
    and "which < nat (m_num_tires s0)"
    and "triangle_rigid (m_system (Construct env s0)) = []"
    and "3 * (\<Sum>j<nat (m_num_tires s0). unat (snd (sp j))) \<le> 2 ^ 32"
  shows "unat (m_num_tri (m_tire_data s ! which)) \<le> length (m_triangles (m_tire_data s ! which))"
    and "unat (m_num_tri (m_tire_data s ! which)) \<le> length (m_proxies (m_tire_data s ! which))"
    and "distinct (map m_body (take (unat (m_num_tri (m_tire_data s ! which)))
                                 (m_proxies (m_tire_data s ! which))))"
    and "\<forall>it < unat (m_num_tri (m_tire_data s ! which)).
           m_body (m_proxies (m_tire_data s ! which) ! it) < length (bodylist (m_system s))"
    and "3 * (unat (m_start_tri (m_tire_data s ! which)) + unat (m_num_tri (m_tire_data s ! which)))
           \<le> 2 ^ 32"
    and "3 * (unat (m_start_tri (m_tire_data s ! which)) + unat (m_num_tri (m_tire_data s ! which)))
           \<le> length (triangle_rigid (m_system s))"
proof -
  let ?N = "nat (m_num_tires s0)"
  let ?td = "m_tire_data s ! which"
  have reg: "tire_registered sp s which" by (rule Initialize_registered[OF assms(1,4)])
  then have nt: "m_num_tri ?td = snd (sp which)"
    and st: "m_start_tri ?td = (\<Sum>j<which. snd (sp j))"
    and tl: "length (m_triangles ?td) = unat (snd (sp which))"
    by (simp_all add: tire_registered_def Let_def)
  have ty: "m_type s = GRANULAR" using Initialize_type[OF assms(1)] assms(2) by simp
  have ne: "num_elements s which = unat (snd (sp which))"
    by (simp add: num_elements_def ty nt)
  from Initialize_proxies(1)[OF assms(1,3)] assms(4) have "proxies_created s which" by simp
  then obtain a where pl: "length (m_proxies ?td) = unat (snd (sp which))"
    and al: "a + unat (snd (sp which)) \<le> length (bodylist (m_system s))"
    and pj: "\<forall>j < unat (snd (sp which)). m_body (m_proxies ?td ! j) = a + j"
    unfolding proxies_created_def ne by auto
  have mb: "map m_body (m_proxies ?td) = map (\<lambda>j. a + j) [0 ..< unat (snd (sp which))]"
    using pl pj by (intro nth_equalityI) simp_all
  have d: "distinct (map m_body (m_proxies ?td))"
    unfolding mb by (simp add: distinct_map inj_on_def)
  have ad: "\<forall>j < length (m_proxies ?td). m_body (m_proxies ?td ! j) < length (bodylist (m_system s))"
    using pj al pl by auto
  have tot: "(\<Sum>j<?N. unat (snd (sp j))) < 2 ^ 32" using assms(6) by simp
  have pre: "(\<Sum>j<which. unat (snd (sp j))) + unat (snd (sp which)) \<le> (\<Sum>j<?N. unat (snd (sp j)))"
    by (rule sum_unat_prefix[OF assms(4)])
  then have "(\<Sum>j<which. unat (snd (sp j))) < 2 ^ 32" using tot by simp
  from unat_sum_no_overflow[OF this]
  have us: "unat (m_start_tri ?td) = (\<Sum>j<which. unat (snd (sp j)))" by (simp add: st)
  have len: "length (triangle_rigid (m_system s)) = 3 * (\<Sum>j<?N. unat (snd (sp j)))"
    using Initialize_triangle_slots[OF assms(1,2)] assms(5) by simp
  show "unat (m_num_tri ?td) \<le> length (m_triangles ?td)" by (simp add: nt tl)
  show "unat (m_num_tri ?td) \<le> length (m_proxies ?td)" by (simp add: nt pl)
  show "distinct (map m_body (take (unat (m_num_tri ?td)) (m_proxies ?td)))"
    using d by (simp add: nt pl)
  show "\<forall>it < unat (m_num_tri ?td). m_body (m_proxies ?td ! it) < length (bodylist (m_system s))"
    using ad by (simp add: nt pl)
  show "3 * (unat (m_start_tri ?td) + unat (m_num_tri ?td)) \<le> 2 ^ 32"
    unfolding us nt by (rule order_trans[OF mult_le_mono2[OF pre] assms(6)])
  show "3 * (unat (m_start_tri ?td) + unat (m_num_tri ?td)) \<le> length (triangle_rigid (m_system s))"
    unfolding us nt len by (rule mult_le_mono2[OF pre])
qed

subsection \<open>The properties on the example nodes\<close>

lemma example_rigid_Initialize:
  "\<exists>s d. Initialize example_env example_surf_props example_mat_props example_rigid = Inr (s, d)
     \<and> s = example_rigid_ready"
proof -
  have "case Initialize example_env example_surf_props example_mat_props example_rigid of
          Inl e \<Rightarrow> False | Inr (s, d) \<Rightarrow> True"
    by code_simp
  then show ?thesis
    by (auto simp: example_rigid_ready_def split: sum.splits)
qed

lemma example_rigid_fresh:
  "\<forall>td \<in> set (m_tire_data example_rigid). m_proxies td = []"
  "nat (m_num_tires example_rigid) = 2"
  "m_type example_rigid = RIGID"
  by (simp_all add: example_rigid_def TerrainNode_new_def new_TireData_def)

lemma lessThan_two: "{..<(2::nat)} = {0, 1}"
  by auto


theorem Initialize_one_proxy_per_element_witness:
  "\<exists>s d. Initialize example_env example_surf_props example_mat_props example_rigid = Inr (s, d)
     \<and> (\<forall>td \<in> set (m_tire_data example_rigid). m_proxies td = [])
     \<and> (1::nat) < nat (m_num_tires example_rigid)
     \<and> length (m_proxies (m_tire_data s ! 1)) = 3
     \<and> distinct (map m_body (m_proxies (m_tire_data s ! 1)))
     \<and> m_start_vert (m_tire_data s ! 1) = 4
     \<and> (\<forall>j < 3. Identifier (bodylist (m_system s) ! m_body (m_proxies (m_tire_data s ! 1) ! j))
                    = 4 + of_nat j)
     \<and> length (bodylist (m_system s)) = 2 + (4 + 3)"
proof -
  from example_rigid_Initialize obtain s d where
    i: "Initialize example_env example_surf_props example_mat_props example_rigid = Inr (s, d)"
    and s: "s = example_rigid_ready"
    by blast
  have f: "\<forall>td \<in> set (m_tire_data example_rigid). m_proxies td = []"
    by (rule example_rigid_fresh)
  have n: "(1::nat) < nat (m_num_tires example_rigid)" by (simp add: example_rigid_fresh)
  have sv: "m_start_vert (m_tire_data s ! 1) = 4" unfolding s by code_simp
  have c: "length (bodylist (m_system (Construct example_env example_rigid))) = 2" by code_simp
  from Initialize_one_proxy_per_element[OF i f n] sv c
  have "length (m_proxies (m_tire_data s ! 1)) = 3
     \<and> distinct (map m_body (m_proxies (m_tire_data s ! 1)))
     \<and> (\<forall>j < 3. Identifier (bodylist (m_system s) ! m_body (m_proxies (m_tire_data s ! 1) ! j))
                    = 4 + of_nat j)
     \<and> length (bodylist (m_system s)) = 2 + (4 + 3)"
    by (simp add: example_rigid_fresh example_surf_props_def lessThan_two)
  with i f n sv show ?thesis by blast
qed

theorem ForcesNodeProxies_local_indices_witness:
  "\<exists>s d s' sent.
       Initialize example_env example_surf_props example_mat_props example_rigid = Inr (s, d)
     \<and> m_type example_rigid = RIGID
     \<and> (\<forall>td \<in> set (m_tire_data example_rigid). m_proxies td = [])
     \<and> (1::nat) < nat (m_num_tires example_rigid)
     \<and> m_type s = RIGID
     \<and> (1::nat) < nat (m_num_tires s)
     \<and> (0::int) < 1
     \<and> Synchronize example_env 1 example_vert_msg example_tri_msg s = Inr (s', sent)
     \<and> contacting_vertices example_env s' 1 = [0, 2]
     \<and> (\<forall>iv < 3. Identifier (bodylist (m_system s) ! m_body (m_proxies (m_tire_data s ! 1) ! iv))
                    = 4 + of_nat iv)
     \<and> sent ! 1 = ([0, 2], [0, 0, 1, 0, 0, 2])
     \<and> ForcesNodeProxies example_env 1 s' = Inr ([0, 0, 1, 0, 0, 2], [0, 2])
     \<and> sorted_wrt (<) (map sint (fst (sent ! 1)))"
proof -
  from example_rigid_Initialize obtain s d where
    i: "Initialize example_env example_surf_props example_mat_props example_rigid = Inr (s, d)"
    and s: "s = example_rigid_ready"
    by blast
  have t: "m_type example_rigid = RIGID" by (rule example_rigid_fresh)
  have f: "\<forall>td \<in> set (m_tire_data example_rigid). m_proxies td = []"
    by (rule example_rigid_fresh)
  have n: "(1::nat) < nat (m_num_tires example_rigid)" by (simp add: example_rigid_fresh)
  have t1: "m_type s = RIGID" unfolding s by code_simp
  have n1: "(1::nat) < nat (m_num_tires s)" unfolding s by code_simp
  have "case Synchronize example_env 1 example_vert_msg example_tri_msg example_rigid_ready of
          Inl e \<Rightarrow> False | Inr (s', sent) \<Rightarrow> True"
    by code_simp
  then obtain s' sent where
    r: "Synchronize example_env 1 example_vert_msg example_tri_msg s = Inr (s', sent)"
    and s': "s' = example_rigid_synced"
    unfolding s by (auto simp: example_rigid_synced_def split: sum.splits)
  have nv: "m_num_vert (m_tire_data s ! 1) = 3" unfolding s by code_simp
  have sv: "m_start_vert (m_tire_data s ! 1) = 4" unfolding s by code_simp
  have cv: "contacting_vertices example_env s' 1 = [0, 2]" unfolding s' by code_simp
  have fv: "concat (map (\<lambda>iv. let f = GetBodyContactForce example_env (m_system s')
                                         (m_body (m_proxies (m_tire_data s' ! 1) ! iv))
                                    in [vec_x f, vec_y f, vec_z f]) [0, 2]) = [0, 0, 1, 0, 0, 2]"
    unfolding s' by code_simp
  have z: "(0::int) < 1" by simp
  from ForcesNodeProxies_local_indices[OF i t f n t1 n1 refl refl z r] cv nv sv fv
  have "(\<forall>iv < 3. Identifier (bodylist (m_system s) ! m_body (m_proxies (m_tire_data s ! 1) ! iv))
                    = 4 + of_nat iv)
     \<and> sent ! 1 = ([0, 2], [0, 0, 1, 0, 0, 2])
     \<and> ForcesNodeProxies example_env 1 s' = Inr ([0, 0, 1, 0, 0, 2], [0, 2])
     \<and> sorted_wrt (<) (map sint (fst (sent ! 1)))"
    by auto
  with i t f n t1 n1 z r cv show ?thesis by blast
qed

theorem Synchronize_step0_sends_nothing_witness:
  "\<exists>s' sent. Synchronize example_env 0 example_vert_msg example_tri_msg example_rigid_ready
                = Inr (s', sent)
     \<and> \<not> IsZero example_env (GetBodyContactForce example_env (m_system s') 2)
     \<and> sent = [([], []), ([], [])]"
proof -
  have "case Synchronize example_env 0 example_vert_msg example_tri_msg example_rigid_ready of
          Inl e \<Rightarrow> False
        | Inr (s, sent) \<Rightarrow> \<not> IsZero example_env (GetBodyContactForce example_env (m_system s) 2)"
    by code_simp
  then obtain s' sent where
    r: "Synchronize example_env 0 example_vert_msg example_tri_msg example_rigid_ready = Inr (s', sent)"
    and c: "\<not> IsZero example_env (GetBodyContactForce example_env (m_system s') 2)"
    by (auto split: sum.splits)
  have n: "nat (m_num_tires example_rigid_ready) = 2" by code_simp
  from Synchronize_step0_sends_nothing[OF r] have "sent = [([], []), ([], [])]"
    by (simp add: n numeral_2_eq_2)
  with r c show ?thesis by blast
qed

lemma all_less_two: "P 0 \<Longrightarrow> P (Suc 0) \<Longrightarrow> \<forall>it<(2::nat). P it"
  by (auto simp: less_Suc_eq numeral_2_eq_2)

theorem UpdateFaceProxies_reconstructs_witness:
  "unat (m_num_tri (m_tire_data example_granular_synced ! 0)) = 2
   \<and> length (m_triangles (m_tire_data example_granular_synced ! 0)) = 2
   \<and> length (m_proxies (m_tire_data example_granular_synced ! 0)) = 2
   \<and> triangle_in_range (m_tire_data example_granular_synced ! 0) 0
   \<and> triangle_in_range (m_tire_data example_granular_synced ! 0) (Suc 0)
   \<and> distinct (map m_body (take 2 (m_proxies (m_tire_data example_granular_synced ! 0))))
   \<and> m_body (m_proxies (m_tire_data example_granular_synced ! 0) ! 0)
         < length (bodylist (m_system example_granular_synced))
   \<and> m_body (m_proxies (m_tire_data example_granular_synced ! 0) ! Suc 0)
         < length (bodylist (m_system example_granular_synced))
   \<and> 3 * (unat (m_start_tri (m_tire_data example_granular_synced ! 0)) + 2) \<le> (2::nat) ^ 32
   \<and> 3 * (unat (m_start_tri (m_tire_data example_granular_synced ! 0)) + 2)
        \<le> length (triangle_rigid (m_system example_granular_synced))
   \<and> (\<exists>s'. UpdateFaceProxies 0 example_granular_synced = Inr s'
          \<and> m_tire_data s' = m_tire_data example_granular_synced
          \<and> (\<forall>it < 2. face_proxy_updated (m_tire_data example_granular_synced ! 0) (m_system s') it)
          \<and> pos (bodylist (m_system s') ! 4) = ChVector (1/3) (1/3) 3
          \<and> triangle_rigid (m_system s') ! 0 = ChVector (- (1/3)) (- (1/3)) 0)"
proof -
  let ?s = example_granular_synced
  let ?td = "m_tire_data ?s ! 0"
  have n: "unat (m_num_tri ?td) = 2" by code_simp
  have t: "length (m_triangles ?td) = 2" by code_simp
  have p: "length (m_proxies ?td) = 2" by code_simp
  have r0: "triangle_in_range ?td 0" and r1: "triangle_in_range ?td (Suc 0)" by code_simp+
  then have r: "\<forall>it < 2. triangle_in_range ?td it" by (rule all_less_two)
  have d: "distinct (map m_body (take 2 (m_proxies ?td)))" by code_simp
  have a0: "m_body (m_proxies ?td ! 0) < length (bodylist (m_system ?s))"
    and a1: "m_body (m_proxies ?td ! Suc 0) < length (bodylist (m_system ?s))" by code_simp+
  then have a: "\<forall>it < 2. m_body (m_proxies ?td ! it) < length (bodylist (m_system ?s))"
    by (rule all_less_two)
  have st: "unat (m_start_tri ?td) = 0" by code_simp
  have tr: "length (triangle_rigid (m_system ?s)) = 6" by code_simp
  have w: "3 * (unat (m_start_tri ?td) + 2) \<le> (2::nat) ^ 32" by (simp add: st)
  have l: "3 * (unat (m_start_tri ?td) + 2) \<le> length (triangle_rigid (m_system ?s))"
    by (simp add: st tr)
  have h1: "unat (m_num_tri ?td) \<le> length (m_triangles ?td)" by (simp add: n t)
  have h2: "unat (m_num_tri ?td) \<le> length (m_proxies ?td)" by (simp add: n p)
  from UpdateFaceProxies_reconstructs[of ?s 0, unfolded n, OF h1[unfolded n] h2[unfolded n] r d a w l]
  obtain s' where
    u: "UpdateFaceProxies 0 ?s = Inr s'" and
    m: "m_tire_data s' = m_tire_data ?s" and
    g: "\<forall>it < 2. face_proxy_updated ?td (m_system s') it"
    by blast
  have ts: "triangle_states ?td 0 = (\<lparr>vs_pos = ChVector 0 0 3, vs_vel = ChVector 0 0 (- 1)\<rparr>,
      \<lparr>vs_pos = ChVector 1 0 3, vs_vel = ChVector 0 0 (- 1)\<rparr>,
      \<lparr>vs_pos = ChVector 0 1 3, vs_vel = ChVector 0 0 (- 1)\<rparr>)" by code_simp
  have b: "m_body (m_proxies ?td ! 0) = 4" by code_simp
  from g have "face_proxy_updated ?td (m_system s') 0" by simp
  then have "pos (bodylist (m_system s') ! 4) = ChVector (1/3) (1/3) 3
          \<and> triangle_rigid (m_system s') ! 0 = ChVector (- (1/3)) (- (1/3)) 0"
    by (simp add: face_proxy_updated_def ts b st Let_def vec_div_def plus_ChVector_def minus_ChVector_def)
  with n t p r0 r1 d a0 a1 w l u m g show ?thesis by blast
qed

theorem ForcesFaceProxies_distributes_witness:
  "unat (m_num_tri (m_tire_data example_granular_synced ! 0))
      \<le> length (m_triangles (m_tire_data example_granular_synced ! 0))
   \<and> unat (m_num_tri (m_tire_data example_granular_synced ! 0))
      \<le> length (m_proxies (m_tire_data example_granular_synced ! 0))
   \<and> (\<forall>m. mset (unordered_order example_env m) = mset m)
   \<and> ForcesFaceProxies example_env 0 example_granular_synced =
        Inr ([0, 0, 2/3,  0, 0, 5/3,  0, 0, 5/3,  0, 0, 1], [3, 2, 1, 0])
   \<and> map (\<lambda>v. \<Sum>it\<leftarrow>[0 ..< 2]. vertex_share example_env example_granular_synced 0 it v)
         [3, 2, 1, 0]
       = [ChVector 0 0 (2/3), ChVector 0 0 (5/3), ChVector 0 0 (5/3), ChVector 0 0 1]"
proof -
  let ?s = example_granular_synced
  let ?td = "m_tire_data ?s ! 0"
  have n: "unat (m_num_tri ?td) = 2" by code_simp
  have t: "length (m_triangles ?td) = 2" by code_simp
  have p: "length (m_proxies ?td) = 2" by code_simp
  have h1: "unat (m_num_tri ?td) \<le> length (m_triangles ?td)" by (simp add: n t)
  have h2: "unat (m_num_tri ?td) \<le> length (m_proxies ?td)" by (simp add: n p)
  have h3: "\<forall>m. mset (unordered_order example_env m) = mset m"
    by (simp add: example_env_def)
  have e: "ForcesFaceProxies example_env 0 ?s =
        Inr ([0, 0, 2/3,  0, 0, 5/3,  0, 0, 5/3,  0, 0, 1], [3, 2, 1, 0])"
    by code_simp
  from ForcesFaceProxies_distributes[OF h1 h2 h3] e
  have a: "\<forall>k < 4. ChVector ([0, 0, 2/3,  0, 0, 5/3,  0, 0, 5/3,  0, 0, 1] ! (3 * k))
                        ([0, 0, 2/3,  0, 0, 5/3,  0, 0, 5/3,  0, 0, 1] ! (3 * k + 1))
                        ([0, 0, 2/3,  0, 0, 5/3,  0, 0, 5/3,  0, 0, 1] ! (3 * k + 2))
          = (\<Sum>it\<leftarrow>[0 ..< 2]. vertex_share example_env ?s 0 it ([3, 2, 1, 0] ! k))"
    unfolding n by simp
  have "map (\<lambda>v. \<Sum>it\<leftarrow>[0 ..< 2]. vertex_share example_env ?s 0 it v) [3, 2, 1, 0]
       = [ChVector 0 0 (2/3), ChVector 0 0 (5/3), ChVector 0 0 (5/3), ChVector 0 0 1]"
    using a[rule_format, of 0] a[rule_format, of 1] a[rule_format, of 2] a[rule_format, of 3]
    by simp
  with h1 h2 h3 e show ?thesis by blast
qed

end
